theory Spec2Isabelle
  imports Complex_Main "HOL-Library.Log_Nat"
begin

section \<open>JavaScript numbers and MySQL column types\<close>

text \<open>
  The order routes compute money with JavaScript Numbers (\<^verbatim>\<open>parseFloat\<close>, \<^verbatim>\<open>*\<close>,
  \<^verbatim>\<open>+\<close>), that is with IEEE-754 binary64 values, and store the results in
  \<^verbatim>\<open>DECIMAL(10,2)\<close> columns. A finite Number is modelled by the rational it denotes;
  every arithmetic operation returns the exact result rounded to the nearest binary64
  value, ties to even. Overflow to \<^verbatim>\<open>Infinity\<close> is not modelled: it needs a magnitude of
  \<open>2^1024\<close>, and a value that large is rejected by every numeric column it is written to.
\<close>

type_synonym number = rat

definition pow2 :: "int \<Rightarrow> rat" where
  "pow2 e = (if 0 \<le> e then 2 ^ nat e else 1 / 2 ^ nat (- e))"

text \<open>For \<open>x > 0\<close> the exponent \<open>e\<close> with \<open>2^e \<le> x < 2^(e+1)\<close>.\<close>

definition floor_log2 :: "rat \<Rightarrow> int" where
  "floor_log2 x = (if 1 \<le> x then bitlen \<lfloor>x\<rfloor> - 1 else - bitlen (\<lceil>1 / x\<rceil> - 1))"

definition round_half_even :: "rat \<Rightarrow> int" where
  "round_half_even m =
     (let f = \<lfloor>m\<rfloor>; d = m - of_int f
      in if d < 1 / 2 then f else if 1 / 2 < d then f + 1 else if even f then f else f + 1)"

text \<open>
  Rounding to binary64: 53 significant bits, least exponent \<open>-1022\<close> (below it the
  spacing stays that of the subnormal numbers).
\<close>

definition to_double :: "rat \<Rightarrow> number" where
  "to_double x =
     (if x = 0 then 0
      else let e = max (floor_log2 \<bar>x\<bar>) (- 1022); u = pow2 (e - 52)
           in sgn x * of_int (round_half_even (\<bar>x\<bar> / u)) * u)"

definition fmul :: "number \<Rightarrow> number \<Rightarrow> number" where
  "fmul x y = to_double (x * y)"

definition fadd :: "number \<Rightarrow> number \<Rightarrow> number" where
  "fadd x y = to_double (x + y)"

text \<open>
  A \<^verbatim>\<open>DECIMAL(10,2)\<close> value is a whole number of hundredths with at most ten digits.
  \<^verbatim>\<open>parseFloat\<close> of the column's text is the nearest Number.
\<close>

type_synonym decimal = int

definition decimal_value :: "decimal \<Rightarrow> rat" where
  "decimal_value c = of_int c / 100"

definition parseFloat :: "decimal \<Rightarrow> number" where
  "parseFloat c = to_double (decimal_value c)"

text \<open>
  Writing a Number to a \<^verbatim>\<open>DECIMAL(10,2)\<close> column rounds it to two decimals (half away
  from zero); in MySQL's default strict mode a value outside the column's range makes the
  statement fail. \<^verbatim>\<open>INT\<close> columns hold signed 32-bit values under the same rule.
  The rounding is taken on the exact value of the binary64 number. A server that rounds the
  shortest decimal representation of the number instead can differ only where the number is
  within one unit in the last place of a half cent; the exactness and half-cent results
  proved below for stored amounts use only that the stored value is within half a cent of the
  number, which holds either way.
\<close>

definition round_half_away :: "rat \<Rightarrow> int" where
  "round_half_away x = (if 0 \<le> x then \<lfloor>x + 1 / 2\<rfloor> else - \<lfloor>- x + 1 / 2\<rfloor>)"

definition to_decimal :: "number \<Rightarrow> decimal option" where
  "to_decimal x =
     (let c = round_half_away (x * 100)
      in if \<bar>c\<bar> < 10 ^ 10 then Some c else None)"

definition int_max :: nat where
  "int_max = 2147483647"

section \<open>Order numbers\<close>

definition digit_char :: "nat \<Rightarrow> char" where
  "digit_char d = ''0123456789'' ! d"

fun toString :: "nat \<Rightarrow> string" where
  "toString n = (if n < 10 then [digit_char n] else toString (n div 10) @ [digit_char (n mod 10)])"

declare toString.simps [simp del]

text \<open>\<^verbatim>\<open>s.slice(-k)\<close>: the last \<open>k\<close> characters, the whole string when it is shorter.\<close>

definition slice_last :: "nat \<Rightarrow> string \<Rightarrow> string" where
  "slice_last k s = drop (length s - k) s"

definition padStart :: "nat \<Rightarrow> char \<Rightarrow> string \<Rightarrow> string" where
  "padStart n c s = replicate (n - length s) c @ s"

text \<open>
  \<^verbatim>\<open>generateOrderNumber\<close>: \<open>now\<close> is \<^verbatim>\<open>Date.now()\<close> in milliseconds and \<open>r\<close> is
  \<^verbatim>\<open>Math.floor(Math.random() * 1000)\<close>.
\<close>

definition generateOrderNumber :: "nat \<Rightarrow> nat \<Rightarrow> string" where
  "generateOrderNumber now r =
     ''ORD-'' @ slice_last 6 (toString now) @ padStart 3 (CHR ''0'') (toString r)"

text \<open>Reading a string of decimal digits back as a number.\<close>

definition digit_val :: "char \<Rightarrow> nat" where
  "digit_val c = length (takeWhile (\<lambda>x. x \<noteq> c) ''0123456789'')"

definition digits_value :: "string \<Rightarrow> nat" where
  "digits_value s = foldl (\<lambda>a c. 10 * a + digit_val c) 0 s"

definition is_digit :: "char \<Rightarrow> bool" where
  "is_digit c = (c \<in> set ''0123456789'')"

definition all_digits :: "string \<Rightarrow> bool" where
  "all_digits s = list_all is_digit s"

section \<open>Tables\<close>

datatype user_type = Customer | Cook | Admin

record user =
  user_id :: nat
  first_name :: string
  last_name :: string
  user_type :: user_type

record restaurant =
  r_id :: nat
  r_cook_id :: nat
  r_is_active :: bool
  r_delivery_fee :: "decimal option"

record food_item =
  f_id :: nat
  f_restaurant_id :: nat
  f_name :: string
  f_price :: decimal
  f_is_available :: bool
  f_total_orders :: nat

record cart_item =
  c_customer_id :: nat
  c_food_item_id :: nat
  c_quantity :: nat

record order =
  o_id :: nat
  o_customer_id :: nat
  o_restaurant_id :: nat
  o_order_number :: string
  o_status :: string
  o_total_amount :: decimal
  o_delivery_fee :: decimal
  o_tax_amount :: decimal
  o_discount_amount :: decimal
  o_final_amount :: decimal
  o_payment_method :: string
  o_delivery_address :: string
  o_special_instructions :: "string option"
  o_estimated_delivery_time :: nat
  o_delivered_at :: "nat option"

record order_item =
  oi_order_id :: nat
  oi_food_item_id :: nat
  oi_quantity :: nat
  oi_unit_price :: decimal
  oi_total_price :: decimal
  oi_special_requests :: "string option"

text \<open>
  The database: each table is the list of its rows in insertion order, so that
  \<^verbatim>\<open>rows[0]\<close> of a \<^verbatim>\<open>SELECT\<close> is the head of a filter. \<open>next_order_id\<close> is the
  \<^verbatim>\<open>AUTO_INCREMENT\<close> counter of \<^verbatim>\<open>orders\<close>.
\<close>

record db =
  restaurants :: "restaurant list"
  food_items :: "food_item list"
  cart_items :: "cart_item list"
  orders :: "order list"
  order_items :: "order_item list"
  next_order_id :: nat

section \<open>Errors and responses\<close>

text \<open>
  What a handler throws: an \<^verbatim>\<open>AppError\<close> (message, status code), a driver error with
  its \<^verbatim>\<open>code\<close>, or any other exception.
\<close>

datatype error = AppError string nat | DbError string | OtherError string

text \<open>\<^verbatim>\<open>errorHandler\<close>: the status code and message sent for a thrown error.\<close>

definition errorHandler :: "error \<Rightarrow> nat \<times> string" where
  "errorHandler err =
     (case err of
        AppError msg code \<Rightarrow> (code, msg)
      | DbError code \<Rightarrow>
          (if code = ''ER_DUP_ENTRY'' then (400, ''Duplicate field value entered'')
           else if code = ''ER_NO_REFERENCED_ROW_2''
             then (400, ''Invalid reference - related record not found'')
           else if code = ''ER_PARSE_ERROR'' then (500, ''Database query error'')
           else (500, code))
      | OtherError msg \<Rightarrow> (500, msg))"


text \<open>The body of a response: the handlers' JSON payloads.\<close>

datatype body =
    Failure string
  | OrderPlaced "order option" "order_item list"
  | OrderDetails order "order_item list"
  | Updated string

type_synonym response = "nat \<times> body"

text \<open>Socket.io events, with the room they are sent to as first component.\<close>

datatype event =
    NewOrder string nat string string number nat
  | OrderStatusChanged string nat string string

text \<open>
  What a handler reads from outside the database: the clock (\<^verbatim>\<open>Date.now()\<close>), the
  value of \<^verbatim>\<open>Math.floor(Math.random() * 1000)\<close>, and whether the call of
  \<^verbatim>\<open>io.to(room).emit(...)\<close> raises.
\<close>

record env =
  now :: nat
  random_floor :: nat
  emit_throws :: bool

section \<open>Transactions\<close>

text \<open>
  A connection holds the committed database, which every reader sees, and the working
  copy of the open transaction, which only the connection's own statements see.
\<close>

record connection =
  committed :: db
  working :: db

definition beginTransaction :: "connection \<Rightarrow> connection" where
  "beginTransaction c = c\<lparr>working := committed c\<rparr>"

definition commit :: "connection \<Rightarrow> connection" where
  "commit c = c\<lparr>committed := working c\<rparr>"

definition rollback :: "connection \<Rightarrow> connection" where
  "rollback c = c\<lparr>working := committed c\<rparr>"

section \<open>POST /api/orders\<close>

record item_request =
  food_item_id :: nat
  quantity :: nat
  special_requests :: "string option"

record order_request =
  restaurant_id :: nat
  items :: "item_request list"
  delivery_address :: string
  payment_method :: string
  special_instructions :: "string option"

text \<open>The express-validator chain of the route.\<close>

definition valid_order_request :: "order_request \<Rightarrow> bool" where
  "valid_order_request req =
     (1 \<le> restaurant_id req \<and> items req \<noteq> [] \<and>
      (\<forall>item \<in> set (items req). 1 \<le> food_item_id item \<and> 1 \<le> quantity item) \<and>
      payment_method req \<in> set [''cash'', ''card'', ''upi'', ''wallet''])"

text \<open>An element of \<^verbatim>\<open>orderItems\<close>.\<close>

record line =
  l_food_item_id :: nat
  l_quantity :: nat
  l_unit_price :: decimal
  l_total_price :: number
  l_special_requests :: "string option"

text \<open>\<^verbatim>\<open>item.special_requests || null\<close>: an empty string becomes \<^verbatim>\<open>null\<close>.\<close>

definition or_null :: "string option \<Rightarrow> string option" where
  "or_null s = (case s of None \<Rightarrow> None | Some t \<Rightarrow> if t = [] then None else Some t)"

text \<open>
  \<^verbatim>\<open>SELECT id, name, price, is_available FROM food_items WHERE id = ? AND restaurant_id = ?\<close>
\<close>

definition select_food_item :: "db \<Rightarrow> nat \<Rightarrow> nat \<Rightarrow> food_item list" where
  "select_food_item d fid rid =
     filter (\<lambda>f. f_id f = fid \<and> f_restaurant_id f = rid) (food_items d)"

text \<open>\<^verbatim>\<open>parseFloat(foodItem.price) * item.quantity\<close>, and the object pushed on \<^verbatim>\<open>orderItems\<close>.\<close>

definition itemTotal :: "food_item \<Rightarrow> item_request \<Rightarrow> number" where
  "itemTotal foodItem item = fmul (parseFloat (f_price foodItem)) (to_double (of_nat (quantity item)))"

definition order_line :: "food_item \<Rightarrow> item_request \<Rightarrow> line" where
  "order_line foodItem item =
     \<lparr>l_food_item_id = food_item_id item, l_quantity = quantity item,
      l_unit_price = f_price foodItem, l_total_price = itemTotal foodItem item,
      l_special_requests = or_null (special_requests item)\<rparr>"

text \<open>The validation loop: every item is looked up within the named restaurant.\<close>

fun validate_items ::
  "db \<Rightarrow> nat \<Rightarrow> item_request list \<Rightarrow> number \<Rightarrow> line list \<Rightarrow> error + number \<times> line list"
where
  "validate_items d rid [] totalAmount orderItems = Inr (totalAmount, orderItems)"
| "validate_items d rid (item # rest) totalAmount orderItems =
     (case select_food_item d (food_item_id item) rid of
        [] \<Rightarrow> Inl (AppError (''Food item '' @ toString (food_item_id item) @ '' not found'') 404)
      | foodItem # _ \<Rightarrow>
          if \<not> f_is_available foodItem
          then Inl (AppError (''Food item '' @ [CHR 0x22] @ f_name foodItem @ [CHR 0x22]
                                @ '' is not available'') 400)
          else validate_items d rid rest (fadd totalAmount (itemTotal foodItem item))
                 (orderItems @ [order_line foodItem item]))"

text \<open>
  \<^verbatim>\<open>parseFloat(restaurant.delivery_fee) || 0\<close> (a \<^verbatim>\<open>NULL\<close> fee parses to \<^verbatim>\<open>NaN\<close>, hence
  0), \<^verbatim>\<open>totalAmount * 0.05\<close> and \<^verbatim>\<open>totalAmount + deliveryFee + taxAmount\<close>.
\<close>

definition deliveryFee :: "restaurant \<Rightarrow> number" where
  "deliveryFee restaurant =
     (case r_delivery_fee restaurant of None \<Rightarrow> 0 | Some fee \<Rightarrow> parseFloat fee)"

definition taxAmount :: "number \<Rightarrow> number" where
  "taxAmount totalAmount = fmul totalAmount (to_double (5 / 100))"

definition finalAmount :: "number \<Rightarrow> number \<Rightarrow> number" where
  "finalAmount totalAmount fee = fadd (fadd totalAmount fee) (taxAmount totalAmount)"

definition out_of_range :: error where
  "out_of_range = DbError ''ER_WARN_DATA_OUT_OF_RANGE''"

text \<open>
  \<^verbatim>\<open>INSERT INTO orders\<close> with the handler's parameters: the four amounts are rounded into
  their columns, the order number is \<^verbatim>\<open>UNIQUE\<close>, and \<^verbatim>\<open>status\<close>, \<^verbatim>\<open>discount_amount\<close>
  and \<^verbatim>\<open>delivered_at\<close> take their defaults. Returns the new table state and
  \<^verbatim>\<open>insertId\<close>.
\<close>

definition insert_order ::
  "env \<Rightarrow> user \<Rightarrow> order_request \<Rightarrow> restaurant \<Rightarrow> number \<Rightarrow> db \<Rightarrow> error + db \<times> nat"
where
  "insert_order env u req restaurant totalAmount w =
     (case (to_decimal totalAmount, to_decimal (deliveryFee restaurant),
            to_decimal (taxAmount totalAmount),
            to_decimal (finalAmount totalAmount (deliveryFee restaurant))) of
        (Some subtotal, Some fee, Some tax, Some final) \<Rightarrow>
          if \<exists>row \<in> set (orders w).
               o_order_number row = generateOrderNumber (now env) (random_floor env)
          then Inl (DbError ''ER_DUP_ENTRY'')
          else
            Inr (w\<lparr>orders := orders w @
                      [\<lparr>o_id = next_order_id w, o_customer_id = user_id u,
                        o_restaurant_id = restaurant_id req,
                        o_order_number = generateOrderNumber (now env) (random_floor env),
                        o_status = ''pending'',
                        o_total_amount = subtotal, o_delivery_fee = fee, o_tax_amount = tax,
                        o_discount_amount = 0, o_final_amount = final,
                        o_payment_method = payment_method req,
                        o_delivery_address = delivery_address req,
                        o_special_instructions = special_instructions req,
                        o_estimated_delivery_time = now env + 45 * 60000,
                        o_delivered_at = None\<rparr>],
                    next_order_id := next_order_id w + 1\<rparr>,
                 next_order_id w)
      | _ \<Rightarrow> Inl out_of_range)"

text \<open>
  The second loop: one \<^verbatim>\<open>INSERT INTO order_items\<close> and one
  \<^verbatim>\<open>UPDATE food_items SET total_orders = total_orders + ? WHERE id = ?\<close> per line. A
  failing statement leaves the earlier writes in the working copy.
\<close>

definition order_item_row :: "nat \<Rightarrow> line \<Rightarrow> decimal \<Rightarrow> order_item" where
  "order_item_row orderId item line_total =
     \<lparr>oi_order_id = orderId, oi_food_item_id = l_food_item_id item,
      oi_quantity = l_quantity item, oi_unit_price = l_unit_price item,
      oi_total_price = line_total, oi_special_requests = l_special_requests item\<rparr>"

definition add_total_orders :: "nat \<Rightarrow> nat \<Rightarrow> db \<Rightarrow> db" where
  "add_total_orders fid q w =
     w\<lparr>food_items :=
         map (\<lambda>f. if f_id f = fid then f\<lparr>f_total_orders := f_total_orders f + q\<rparr> else f)
             (food_items w)\<rparr>"

fun insert_items :: "nat \<Rightarrow> line list \<Rightarrow> db \<Rightarrow> error option \<times> db" where
  "insert_items orderId [] w = (None, w)"
| "insert_items orderId (item # rest) w =
     (if int_max < l_quantity item \<or> 10 ^ 10 \<le> \<bar>l_unit_price item\<bar> then (Some out_of_range, w)
      else
        case to_decimal (l_total_price item) of
          None \<Rightarrow> (Some out_of_range, w)
        | Some line_total \<Rightarrow>
            let w1 = w\<lparr>order_items := order_items w @ [order_item_row orderId item line_total]\<rparr>
            in if \<exists>f \<in> set (food_items w1).
                    f_id f = l_food_item_id item \<and> int_max < f_total_orders f + l_quantity item
               then (Some out_of_range, w1)
               else insert_items orderId rest
                      (add_total_orders (l_food_item_id item) (l_quantity item) w1))"

text \<open>
  \<^verbatim>\<open>DELETE ci FROM cart_items ci JOIN food_items fi ON ci.food_item_id = fi.id
  WHERE ci.customer_id = ? AND fi.restaurant_id = ?\<close>
\<close>

definition clear_cart :: "nat \<Rightarrow> nat \<Rightarrow> db \<Rightarrow> db" where
  "clear_cart cid rid w =
     w\<lparr>cart_items :=
         filter (\<lambda>ci. \<not> (c_customer_id ci = cid \<and>
                          (\<exists>f \<in> set (food_items w).
                             f_id f = c_food_item_id ci \<and> f_restaurant_id f = rid)))
                (cart_items w)\<rparr>"

text \<open>The order's lines as the detail queries return them (joined with the menu).\<close>

definition select_order_items :: "nat \<Rightarrow> db \<Rightarrow> order_item list" where
  "select_order_items orderId d =
     filter (\<lambda>oi. oi_order_id oi = orderId \<and>
                  (\<exists>f \<in> set (food_items d). f_id f = oi_food_item_id oi))
            (order_items d)"

definition select_order :: "nat \<Rightarrow> db \<Rightarrow> order list" where
  "select_order orderId d = filter (\<lambda>row. o_id row = orderId) (orders d)"

text \<open>
  The \<^verbatim>\<open>try\<close> block of the handler. A throw is \<open>Inl\<close>, returned with the connection as
  it is at that moment.
\<close>

definition order_try ::
  "env \<Rightarrow> user \<Rightarrow> order_request \<Rightarrow> connection \<Rightarrow> (error + response) \<times> connection \<times> event list"
where
  "order_try env u req c =
     (case filter (\<lambda>r. r_id r = restaurant_id req \<and> r_is_active r) (restaurants (working c)) of
        [] \<Rightarrow> (Inl (AppError ''Restaurant not found or inactive'' 404), c, [])
      | restaurant # _ \<Rightarrow>
          (case validate_items (working c) (restaurant_id req) (items req) 0 [] of
             Inl e \<Rightarrow> (Inl e, c, [])
           | Inr (totalAmount, orderItems) \<Rightarrow>
               (case insert_order env u req restaurant totalAmount (working c) of
                  Inl e \<Rightarrow> (Inl e, c, [])
                | Inr (w1, orderId) \<Rightarrow>
                    (case insert_items orderId orderItems w1 of
                       (Some e, w2) \<Rightarrow> (Inl e, c\<lparr>working := w2\<rparr>, [])
                     | (None, w2) \<Rightarrow>
                         let c1 = commit (c\<lparr>working :=
                                    clear_cart (user_id u) (restaurant_id req) w2\<rparr>);
                             order_rows = select_order orderId (working c1);
                             items_data = select_order_items orderId (working c1)
                         in if emit_throws env then (Inl (OtherError ''emit''), c1, [])
                            else
                              (Inr (201, OrderPlaced (case order_rows of [] \<Rightarrow> None
                                                      | row # _ \<Rightarrow> Some row) items_data),
                               c1,
                               [NewOrder (''restaurant_'' @ toString (restaurant_id req))
                                  orderId (generateOrderNumber (now env) (random_floor env))
                                  (first_name u @ '' '' @ last_name u)
                                  (finalAmount totalAmount (deliveryFee restaurant))
                                  (length (items req))])))))"

text \<open>
  The whole route: \<^verbatim>\<open>requireCustomer\<close>, the validation result, the transaction, and
  the \<^verbatim>\<open>catch\<close> block, which rolls back and rethrows. The result is what the handler
  returns or throws, the database every reader sees afterwards, and the events sent.
\<close>

definition create_order ::
  "env \<Rightarrow> user \<Rightarrow> order_request \<Rightarrow> db \<Rightarrow> (error + response) \<times> db \<times> event list"
where
  "create_order env u req d =
     (if user_type u \<noteq> Customer then (Inr (403, Failure ''Insufficient permissions''), d, [])
      else if \<not> valid_order_request req then (Inr (400, Failure ''Validation failed''), d, [])
      else
        case order_try env u req (beginTransaction \<lparr>committed = d, working = d\<rparr>) of
          (Inl e, c, evs) \<Rightarrow> (Inl e, committed (rollback c), evs)
        | (Inr r, c, evs) \<Rightarrow> (Inr r, committed c, evs))"

text \<open>The status code the client receives.\<close>

definition status_code :: "error + response \<Rightarrow> nat" where
  "status_code res = (case res of Inl e \<Rightarrow> fst (errorHandler e) | Inr r \<Rightarrow> fst r)"

section \<open>GET /api/orders/:id\<close>

text \<open>
  The joins with \<^verbatim>\<open>restaurants\<close> and \<^verbatim>\<open>users\<close> drop no row: both are foreign keys of
  \<^verbatim>\<open>orders\<close> with \<^verbatim>\<open>ON DELETE CASCADE\<close>.
\<close>

definition cook_restaurants :: "user \<Rightarrow> db \<Rightarrow> restaurant list" where
  "cook_restaurants u d = filter (\<lambda>r. r_cook_id r = user_id u) (restaurants d)"

definition get_order :: "user \<Rightarrow> nat \<Rightarrow> db \<Rightarrow> error + response" where
  "get_order u orderId d =
     (case select_order orderId d of
        [] \<Rightarrow> Inl (AppError ''Order not found'' 404)
      | order # _ \<Rightarrow>
          if user_type u = Customer \<and> o_customer_id order \<noteq> user_id u
          then Inl (AppError ''Unauthorized to view this order'' 403)
          else if user_type u = Cook \<and>
                  (case cook_restaurants u d of
                     [] \<Rightarrow> True
                   | r # _ \<Rightarrow> o_restaurant_id order \<noteq> r_id r)
          then Inl (AppError ''Unauthorized to view this order'' 403)
          else Inr (200, OrderDetails order (select_order_items orderId d)))"

section \<open>PATCH /api/orders/:id/status\<close>

definition valid_statuses :: "string list" where
  "valid_statuses =
     [''pending'', ''confirmed'', ''preparing'', ''sent_to_delivery'', ''delivered'', ''cancelled'']"

text \<open>
  \<^verbatim>\<open>UPDATE orders SET status = ? [, delivered_at = ?] WHERE id = ?\<close>: the second column
  is in the statement only when the target is \<^verbatim>\<open>delivered\<close>.
\<close>

definition set_status :: "nat \<Rightarrow> string \<Rightarrow> nat \<Rightarrow> db \<Rightarrow> db" where
  "set_status orderId status t d =
     d\<lparr>orders :=
         map (\<lambda>row. if o_id row = orderId
                     then (if status = ''delivered''
                           then row\<lparr>o_status := status, o_delivered_at := Some t\<rparr>
                           else row\<lparr>o_status := status\<rparr>)
                     else row)
             (orders d)\<rparr>"

definition update_status ::
  "env \<Rightarrow> user \<Rightarrow> nat \<Rightarrow> string \<Rightarrow> db \<Rightarrow> (error + response) \<times> db \<times> event list"
where
  "update_status env u orderId status d =
     (if status \<notin> set valid_statuses then (Inr (400, Failure ''Validation failed''), d, [])
      else
        case select_order orderId d of
          [] \<Rightarrow> (Inl (AppError ''Order not found'' 404), d, [])
        | order # _ \<Rightarrow>
            if user_type u = Cook \<and>
               (case cook_restaurants u d of
                  [] \<Rightarrow> True
                | r # _ \<Rightarrow> o_restaurant_id order \<noteq> r_id r)
            then (Inl (AppError ''Unauthorized to update this order'' 403), d, [])
            else if user_type u \<noteq> Cook \<and> user_type u \<noteq> Admin
            then (Inl (AppError ''Insufficient permissions'' 403), d, [])
            else
              let d' = set_status orderId status (now env) d
              in if emit_throws env then (Inl (OtherError ''emit''), d', [])
                 else (Inr (200, Updated ''Order status updated successfully''), d',
                       [OrderStatusChanged (''user_'' @ toString (o_customer_id order))
                          orderId status (o_order_number order)]))"

section \<open>PUT /api/food/:id\<close>



section \<open>Vocabulary of the statements\<close>

text \<open>
  \<^verbatim>\<open>foodItems[0]\<close> for an item of the request (meaningful when the \<^verbatim>\<open>SELECT\<close> returns a
  row), and the quantity a request or a list of lines orders of one menu item.
\<close>

definition menu_row :: "db \<Rightarrow> nat \<Rightarrow> item_request \<Rightarrow> food_item" where
  "menu_row d rid item = hd (select_food_item d (food_item_id item) rid)"

definition requested_quantity :: "item_request list \<Rightarrow> nat \<Rightarrow> nat" where
  "requested_quantity its fid = sum_list (map quantity (filter (\<lambda>i. food_item_id i = fid) its))"

definition ordered_quantity :: "line list \<Rightarrow> nat \<Rightarrow> nat" where
  "ordered_quantity ls fid = sum_list (map l_quantity (filter (\<lambda>l. l_food_item_id l = fid) ls))"

text \<open>The cart entries that the cleanup of an order by customer \<open>cid\<close> at restaurant \<open>rid\<close> removes.\<close>

definition in_cart_of :: "db \<Rightarrow> nat \<Rightarrow> nat \<Rightarrow> cart_item \<Rightarrow> bool" where
  "in_cart_of d cid rid ci =
     (c_customer_id ci = cid \<and>
      (\<exists>f \<in> set (food_items d). f_id f = c_food_item_id ci \<and> f_restaurant_id f = rid))"




text \<open>
  The exact subtotal of a request in hundredths, from the menu rows at order time, and
  the delivery fee of the restaurant the handler works with (0 when the column is
  \<^verbatim>\<open>NULL\<close>).
\<close>

definition exact_subtotal :: "db \<Rightarrow> order_request \<Rightarrow> decimal" where
  "exact_subtotal d req =
     sum_list (map (\<lambda>item. int (quantity item) * f_price (menu_row d (restaurant_id req) item))
                   (items req))"

text \<open>\<^verbatim>\<open>restaurants[0]\<close> of the restaurant lookup.\<close>

definition selected_restaurant :: "db \<Rightarrow> order_request \<Rightarrow> restaurant" where
  "selected_restaurant d req =
     hd (filter (\<lambda>r. r_id r = restaurant_id req \<and> r_is_active r) (restaurants d))"

definition restaurant_fee :: "db \<Rightarrow> order_request \<Rightarrow> decimal" where
  "restaurant_fee d req =
     (case r_delivery_fee (selected_restaurant d req) of None \<Rightarrow> 0 | Some fee \<Rightarrow> fee)"

text \<open>The subtotal as the validation loop accumulates it, in binary64.\<close>

definition float_subtotal :: "db \<Rightarrow> order_request \<Rightarrow> number" where
  "float_subtotal d req =
     foldl fadd 0 (map (\<lambda>item. itemTotal (menu_row d (restaurant_id req) item) item) (items req))"

text \<open>
  The four amounts of the \<^verbatim>\<open>INSERT INTO orders\<close> as the handler computes them (subtotal, fee,
  tax, final), the same four columns of a stored row, and the \<^verbatim>\<open>totalAmount\<close> fields of the
  \<^verbatim>\<open>new_order\<close> events of a run.
\<close>

definition float_final :: "db \<Rightarrow> order_request \<Rightarrow> number" where
  "float_final d req =
     finalAmount (float_subtotal d req) (deliveryFee (selected_restaurant d req))"

definition float_amounts :: "db \<Rightarrow> order_request \<Rightarrow> number list" where
  "float_amounts d req =
     [float_subtotal d req, deliveryFee (selected_restaurant d req),
      taxAmount (float_subtotal d req), float_final d req]"

definition order_amounts :: "order \<Rightarrow> decimal list" where
  "order_amounts row =
     [o_total_amount row, o_delivery_fee row, o_tax_amount row, o_final_amount row]"

fun event_amounts :: "event list \<Rightarrow> number list" where
  "event_amounts [] = []"
| "event_amounts (NewOrder room orderId orderNumber customerName amount itemCount # es) =
     amount # event_amounts es"
| "event_amounts (OrderStatusChanged room orderId st orderNumber # es) = event_amounts es"

section \<open>Example data\<close>

definition ex_order :: order where
  "ex_order =
     \<lparr>o_id = 41, o_customer_id = 7, o_restaurant_id = 1, o_order_number = ''ORD-123456007'',
      o_status = ''delivered'', o_total_amount = 2500, o_delivery_fee = 250, o_tax_amount = 125,
      o_discount_amount = 0, o_final_amount = 2875, o_payment_method = ''cash'',
      o_delivery_address = ''{}'', o_special_instructions = None,
      o_estimated_delivery_time = 1700002823456, o_delivered_at = Some 1700002000000\<rparr>"

definition ex_db :: db where
  "ex_db =
     \<lparr>restaurants =
        [\<lparr>r_id = 1, r_cook_id = 10, r_is_active = True, r_delivery_fee = Some 250\<rparr>,
         \<lparr>r_id = 2, r_cook_id = 11, r_is_active = True, r_delivery_fee = None\<rparr>],
      food_items =
        [\<lparr>f_id = 1, f_restaurant_id = 1, f_name = ''itemA'', f_price = 1000,
          f_is_available = True, f_total_orders = 0\<rparr>,
         \<lparr>f_id = 2, f_restaurant_id = 1, f_name = ''itemB'', f_price = 500,
          f_is_available = True, f_total_orders = 4\<rparr>,
         \<lparr>f_id = 3, f_restaurant_id = 2, f_name = ''itemC'', f_price = 10,
          f_is_available = True, f_total_orders = 0\<rparr>],
      cart_items =
        [\<lparr>c_customer_id = 7, c_food_item_id = 1, c_quantity = 2\<rparr>,
         \<lparr>c_customer_id = 7, c_food_item_id = 3, c_quantity = 1\<rparr>,
         \<lparr>c_customer_id = 8, c_food_item_id = 2, c_quantity = 1\<rparr>],
      orders = [], order_items = [], next_order_id = 42\<rparr>"

definition ex_db_delivered :: db where
  "ex_db_delivered = ex_db\<lparr>orders := [ex_order], next_order_id := 42\<rparr>"

definition alice :: user where
  "alice = \<lparr>user_id = 7, first_name = ''Alice'', last_name = ''A'', user_type = Customer\<rparr>"

definition bob :: user where
  "bob = \<lparr>user_id = 8, first_name = ''Bob'', last_name = ''B'', user_type = Customer\<rparr>"


definition cook2 :: user where
  "cook2 = \<lparr>user_id = 11, first_name = ''Dora'', last_name = ''D'', user_type = Cook\<rparr>"

definition root :: user where
  "root = \<lparr>user_id = 1, first_name = ''Root'', last_name = ''R'', user_type = Admin\<rparr>"

definition ex_env :: env where
  "ex_env = \<lparr>now = 1700000123456, random_floor = 7, emit_throws = False\<rparr>"

definition ex_req :: order_request where
  "ex_req =
     \<lparr>restaurant_id = 1,
      items = [\<lparr>food_item_id = 1, quantity = 2, special_requests = None\<rparr>,
               \<lparr>food_item_id = 2, quantity = 1, special_requests = Some ''no onions''\<rparr>],
      delivery_address = ''{}'', payment_method = ''cash'', special_instructions = None\<rparr>"

definition ex_lines :: "line list" where
  "ex_lines =
     [\<lparr>l_food_item_id = 1, l_quantity = 2, l_unit_price = 1000, l_total_price = 20,
       l_special_requests = None\<rparr>,
      \<lparr>l_food_item_id = 2, l_quantity = 1, l_unit_price = 500, l_total_price = 5,
       l_special_requests = Some ''no onions''\<rparr>]"

definition ex_restaurant :: restaurant where
  "ex_restaurant = \<lparr>r_id = 1, r_cook_id = 10, r_is_active = True, r_delivery_fee = Some 250\<rparr>"

definition ex_new_order :: order where
  "ex_new_order =
     \<lparr>o_id = 42, o_customer_id = 7, o_restaurant_id = 1, o_order_number = ''ORD-123456007'',
      o_status = ''pending'', o_total_amount = 2500, o_delivery_fee = 250, o_tax_amount = 125,
      o_discount_amount = 0, o_final_amount = 2875, o_payment_method = ''cash'',
      o_delivery_address = ''{}'', o_special_instructions = None,
      o_estimated_delivery_time = 1700002823456, o_delivered_at = None\<rparr>"

definition ex_new_items :: "order_item list" where
  "ex_new_items =
     [\<lparr>oi_order_id = 42, oi_food_item_id = 1, oi_quantity = 2, oi_unit_price = 1000,
       oi_total_price = 2000, oi_special_requests = None\<rparr>,
      \<lparr>oi_order_id = 42, oi_food_item_id = 2, oi_quantity = 1, oi_unit_price = 500,
       oi_total_price = 500, oi_special_requests = Some ''no onions''\<rparr>]"

definition ex_db_after :: db where
  "ex_db_after =
     \<lparr>restaurants =
        [\<lparr>r_id = 1, r_cook_id = 10, r_is_active = True, r_delivery_fee = Some 250\<rparr>,
         \<lparr>r_id = 2, r_cook_id = 11, r_is_active = True, r_delivery_fee = None\<rparr>],
      food_items =
        [\<lparr>f_id = 1, f_restaurant_id = 1, f_name = ''itemA'', f_price = 1000,
          f_is_available = True, f_total_orders = 2\<rparr>,
         \<lparr>f_id = 2, f_restaurant_id = 1, f_name = ''itemB'', f_price = 500,
          f_is_available = True, f_total_orders = 5\<rparr>,
         \<lparr>f_id = 3, f_restaurant_id = 2, f_name = ''itemC'', f_price = 10,
          f_is_available = True, f_total_orders = 0\<rparr>],
      cart_items =
        [\<lparr>c_customer_id = 7, c_food_item_id = 3, c_quantity = 1\<rparr>,
         \<lparr>c_customer_id = 8, c_food_item_id = 2, c_quantity = 1\<rparr>],
      orders = [ex_new_order], order_items = ex_new_items, next_order_id = 43\<rparr>"


text \<open>Three portions of itemC (0.10 each) from restaurant 2, which has no delivery fee.\<close>

definition ex_req_c :: order_request where
  "ex_req_c =
     \<lparr>restaurant_id = 2,
      items = [\<lparr>food_item_id = 3, quantity = 3, special_requests = None\<rparr>],
      delivery_address = ''{}'', payment_method = ''card'', special_instructions = None\<rparr>"

section \<open>Properties of order numbers\<close>

lemma digit_val_digit_char: "d < 10 \<Longrightarrow> digit_val (digit_char d) = d"
proof -
  assume "d < 10"
  then have "d \<in> {0,1,2,3,4,5,6,7,8,9}" by auto
  then show ?thesis
    by (auto simp: digit_val_def digit_char_def)
qed

lemma is_digit_digit_char: "d < 10 \<Longrightarrow> is_digit (digit_char d)"
proof -
  assume "d < 10"
  then have "d \<in> {0,1,2,3,4,5,6,7,8,9}" by auto
  then show ?thesis
    by (auto simp: is_digit_def digit_char_def)
qed

lemma toString_append: "10 \<le> n \<Longrightarrow> toString n = toString (n div 10) @ [digit_char (n mod 10)]"
  by (subst toString.simps) simp

lemma toString_small: "n < 10 \<Longrightarrow> toString n = [digit_char n]"
  by (subst toString.simps) simp

lemma all_digits_toString: "all_digits (toString n)"
proof (induction n rule: toString.induct)
  case (1 n)
  show ?case
  proof (cases "n < 10")
    case True
    then show ?thesis by (simp add: toString_small all_digits_def is_digit_digit_char)
  next
    case False
    with 1 show ?thesis
      by (simp add: toString_append all_digits_def is_digit_digit_char)
  qed
qed

lemma length_toString_lower: "10 ^ k \<le> n \<Longrightarrow> k < length (toString n)"
proof (induction k arbitrary: n)
  case 0
  then show ?case by (subst toString.simps) simp
next
  case (Suc k)
  then have "10 \<le> n" by (meson le_trans self_le_power zero_less_Suc power_Suc le_add1 one_le_numeral  one_le_power mult_le_mono2 nat_mult_1_right)
  moreover from Suc.prems have "10 ^ k \<le> n div 10" by simp
  ultimately show ?case using Suc.IH [of "n div 10"] by (simp add: toString_append)
qed

lemma length_toString_upper: "n < 10 ^ Suc k \<Longrightarrow> length (toString n) \<le> Suc k"
proof (induction k arbitrary: n)
  case 0
  then show ?case by (simp add: toString_small)
next
  case (Suc k)
  show ?case
  proof (cases "n < 10")
    case True
    then show ?thesis by (simp add: toString_small)
  next
    case False
    moreover from Suc.prems have "n div 10 < 10 ^ Suc k" by (simp add: less_mult_imp_div_less mult.commute)
    ultimately show ?thesis using Suc.IH [of "n div 10"] by (simp add: toString_append)
  qed
qed

lemma digits_value_snoc: "digits_value (s @ [c]) = 10 * digits_value s + digit_val c"
  by (simp add: digits_value_def)

lemma slice_last_snoc: "slice_last (Suc k) (s @ [c]) = slice_last k s @ [c]"
  by (simp add: slice_last_def)

lemma digits_value_slice_last: "digits_value (slice_last k (toString n)) = n mod 10 ^ k"
proof (induction k arbitrary: n)
  case 0
  then show ?case by (simp add: slice_last_def digits_value_def)
next
  case (Suc k)
  show ?case
  proof (cases "n < 10")
    case True
    then have "n < 10 ^ Suc k"
      by (metis le_less_trans less_le_trans linorder_not_less power_increasing self_le_power one_le_numeral power_one_right zero_less_Suc order_refl)
    with True show ?thesis
      by (simp add: toString_small slice_last_def digits_value_def digit_val_digit_char)
  next
    case False
    then have "digits_value (slice_last (Suc k) (toString n)) = 10 * ((n div 10) mod 10 ^ k) + n mod 10"
      by (simp add: toString_append slice_last_snoc digits_value_snoc Suc.IH digit_val_digit_char)
    also have "\<dots> = n mod 10 ^ Suc k"
      by (simp add: mod_mult2_eq)
    finally show ?thesis .
  qed
qed


lemma digits_value_zeros: "digits_value (replicate m (CHR ''0'') @ s) = digits_value s"
proof -
  have "foldl (\<lambda>a c. 10 * a + digit_val c) 0 (replicate m (CHR ''0'')) = 0"
    by (induction m) (simp_all add: digit_val_def)
  then show ?thesis by (simp add: digits_value_def)
qed

lemma digits_value_toString: "digits_value (toString n) = n"
proof -
  let ?k = "length (toString n)"
  have "digits_value (slice_last ?k (toString n)) = n mod 10 ^ ?k"
    by (rule digits_value_slice_last)
  moreover have "n < 10 ^ ?k"
  proof (rule ccontr)
    assume "\<not> n < 10 ^ ?k"
    then have "10 ^ ?k \<le> n" by simp
    then have "?k < ?k" by (rule length_toString_lower)
    then show False by simp
  qed
  moreover have "slice_last ?k (toString n) = toString n"
    by (simp add: slice_last_def)
  ultimately show ?thesis by simp
qed

lemma all_digits_slice_last: "all_digits s \<Longrightarrow> all_digits (slice_last k s)"
  unfolding all_digits_def slice_last_def list_all_iff by (meson in_set_dropD)

lemma is_digit_zero: "is_digit (CHR ''0'')"
  by (simp add: is_digit_def)

lemma all_digits_padStart: "all_digits s \<Longrightarrow> all_digits (padStart k (CHR ''0'') s)"
  by (auto simp: all_digits_def padStart_def list_all_iff is_digit_zero)

lemma timestamp_part:
  assumes "100000 \<le> ms"
  shows "length (slice_last 6 (toString ms)) = 6"
proof -
  have "5 < length (toString ms)"
    using length_toString_lower [of 5 ms] assms by simp
  then show ?thesis by (simp add: slice_last_def)
qed

lemma random_part:
  assumes "r < 1000"
  shows "length (padStart 3 (CHR ''0'') (toString r)) = 3"
proof -
  from assms have "r < 10 ^ Suc 2" by simp
  then have "length (toString r) \<le> Suc 2" by (rule length_toString_upper)
  then show ?thesis by (simp add: padStart_def)
qed

lemma random_part_value: "digits_value (padStart 3 (CHR ''0'') (toString r)) = r"
  by (simp add: padStart_def digits_value_zeros digits_value_toString)

lemma order_number_random:
  assumes "100000 \<le> ms"
  shows "digits_value (drop 10 (generateOrderNumber ms r)) = r"
  using timestamp_part [OF assms] by (simp add: generateOrderNumber_def random_part_value)

lemma order_number_inj:
  assumes "100000 \<le> ms"
  shows "inj_on (generateOrderNumber ms) A"
  by (rule inj_onI) (metis order_number_random [OF assms])

lemma replicate_2: "replicate 2 c = [c, c]"
  by (simp add: numeral_2_eq_2)

text \<open>
  Claim C10. For a clock value of at least six digits (any time later than 100 seconds
  after the epoch) and a random draw in \<open>0..999\<close>, the order number is \<^verbatim>\<open>ORD-\<close> followed
  by nine decimal digits: six digits that read as the timestamp modulo \<open>10^6\<close>, then
  three digits that read as the draw. Its length is 13, and for a fixed timestamp exactly
  1000 order numbers are possible.
\<close>

theorem order_number_format:
  assumes "100000 \<le> ms" and "r < 1000"
  shows "(\<exists>ts rs. generateOrderNumber ms r = ''ORD-'' @ ts @ rs \<and>
            length ts = 6 \<and> length rs = 3 \<and> all_digits ts \<and> all_digits rs \<and>
            digits_value ts = ms mod 10 ^ 6 \<and> digits_value rs = r) \<and>
         length (generateOrderNumber ms r) = 13 \<and>
         card (generateOrderNumber ms ` {..<1000}) = 1000"
proof (intro conjI)
  let ?ts = "slice_last 6 (toString ms)" and ?rs = "padStart 3 (CHR ''0'') (toString r)"
  have ts: "length ?ts = 6" by (rule timestamp_part [OF assms(1)])
  have rs: "length ?rs = 3" by (rule random_part [OF assms(2)])
  have "generateOrderNumber ms r = ''ORD-'' @ ?ts @ ?rs"
    by (simp add: generateOrderNumber_def)
  moreover have "all_digits ?ts" "all_digits ?rs"
    by (simp_all add: all_digits_slice_last all_digits_padStart all_digits_toString)
  moreover have "digits_value ?ts = ms mod 10 ^ 6" by (rule digits_value_slice_last)
  moreover have "digits_value ?rs = r" by (rule random_part_value)
  ultimately show "\<exists>ts rs. generateOrderNumber ms r = ''ORD-'' @ ts @ rs \<and>
            length ts = 6 \<and> length rs = 3 \<and> all_digits ts \<and> all_digits rs \<and>
            digits_value ts = ms mod 10 ^ 6 \<and> digits_value rs = r"
    using ts rs by blast
  show "length (generateOrderNumber ms r) = 13"
    using ts rs by (simp add: generateOrderNumber_def)
  have "card (generateOrderNumber ms ` {..<1000}) = card {..<(1000::nat)}"
    by (rule card_image) (rule order_number_inj [OF assms(1)])
  then show "card (generateOrderNumber ms ` {..<1000}) = 1000" by simp
qed

theorem order_number_format_witness:
  "generateOrderNumber 1700000123456 7 = ''ORD-123456007'' \<and>
   length (generateOrderNumber 1700000123456 7) = 13 \<and>
   card (generateOrderNumber 1700000123456 ` {..<1000}) = 1000"
proof -
  have a: "generateOrderNumber 1700000123456 7 = ''ORD-123456007''"
    by (simp add: generateOrderNumber_def slice_last_def padStart_def toString.simps
          digit_char_def replicate_2)
  have "(100000::nat) \<le> 1700000123456" and "(7::nat) < 1000"
    by simp_all
  note b = order_number_format [OF this]
  show ?thesis
    apply (rule conjI)
     apply (rule a)
    apply (rule conjunct2 [OF b])
    done
qed

section \<open>Rounding to binary64\<close>

lemma pow2_powi: "pow2 e = 2 powi e"
  by (simp add: pow2_def power_int_def power_one_over)

lemma pow2_pos: "0 < pow2 e"
  by (simp add: pow2_powi zero_less_power_int)

lemma pow2_mono: "a \<le> b \<Longrightarrow> pow2 a \<le> pow2 b"
  by (simp add: pow2_powi power_int_increasing)

lemma pow2_Suc: "pow2 (e + 1) = 2 * pow2 e"
  by (simp add: pow2_powi power_int_add)

lemma pow2_diff: "pow2 (a - b) = pow2 a / pow2 b"
  by (simp add: pow2_powi power_int_diff)

lemma pow2_nat: "0 \<le> e \<Longrightarrow> pow2 e = 2 ^ nat e"
  by (simp add: pow2_def)

lemma pow2_neg: "0 \<le> e \<Longrightarrow> pow2 (- e) = 1 / 2 ^ nat e"
  by (cases "e = 0") (simp_all add: pow2_def)

text \<open>\<open>floor_log2\<close> is the binary exponent.\<close>

lemma floor_log2_ge1:
  assumes "1 \<le> x"
  shows "pow2 (floor_log2 x) \<le> x" and "x < pow2 (floor_log2 x + 1)"
proof -
  let ?n = "\<lfloor>x\<rfloor>"
  from assms have n: "0 < ?n" by simp
  note b = bitlen_bounds [OF n]
  from n have bl: "1 \<le> bitlen ?n" by (simp add: bitlen_alt_def)
  have e: "floor_log2 x = bitlen ?n - 1" using assms by (simp add: floor_log2_def)
  have "pow2 (floor_log2 x) = of_int (2 ^ nat (bitlen ?n - 1))"
    using bl by (simp add: e pow2_nat)
  also have "\<dots> \<le> of_int ?n" using b by (simp only: of_int_le_iff)
  also have "\<dots> \<le> x" by simp
  finally show "pow2 (floor_log2 x) \<le> x" .
  have "?n + 1 \<le> 2 ^ nat (bitlen ?n)" using b by simp
  then have "(of_int (?n + 1) :: rat) \<le> of_int (2 ^ nat (bitlen ?n))" by (simp only: of_int_le_iff)
  moreover have "x < of_int (?n + 1)" by linarith
  moreover have "pow2 (floor_log2 x + 1) = of_int (2 ^ nat (bitlen ?n))"
    using bl by (simp add: e pow2_nat)
  ultimately show "x < pow2 (floor_log2 x + 1)" by simp
qed

lemma floor_log2_lt1:
  assumes "0 < x" and "x < 1"
  shows "pow2 (floor_log2 x) \<le> x" and "x < pow2 (floor_log2 x + 1)"
proof -
  let ?y = "1 / x"
  let ?m = "\<lceil>?y\<rceil> - 1"
  from assms have y: "1 < ?y" by simp
  then have "1 < \<lceil>?y\<rceil>" by (simp add: less_ceiling_iff)
  then have m: "0 < ?m" by simp
  note b = bitlen_bounds [OF m]
  from m have bl: "1 \<le> bitlen ?m" by (simp add: bitlen_alt_def)
  have e: "floor_log2 x = - bitlen ?m" using assms by (simp add: floor_log2_def)
  have my: "of_int ?m < ?y" "?y \<le> of_int ?m + 1"
    using ceiling_correct [of ?y] by simp_all
  have "?y \<le> of_int (?m + 1)" using my by simp
  also have "(of_int (?m + 1) :: rat) \<le> of_int (2 ^ nat (bitlen ?m))"
    using b by (simp only: of_int_le_iff) simp
  finally have up: "?y \<le> 2 ^ nat (bitlen ?m)" by simp
  have "(of_int (2 ^ nat (bitlen ?m - 1)) :: rat) \<le> of_int ?m"
    using b by (simp only: of_int_le_iff)
  also have "\<dots> < ?y" by (rule my)
  finally have lo: "2 ^ nat (bitlen ?m - 1) < ?y" by simp
  have "pow2 (floor_log2 x) = 1 / 2 ^ nat (bitlen ?m)"
    using bl by (simp add: e pow2_neg)
  also have "\<dots> \<le> x"
  proof -
    from up assms have "1 \<le> x * 2 ^ nat (bitlen ?m)"
      by (simp add: field_simps)
    then show ?thesis by (simp add: field_simps)
  qed
  finally show "pow2 (floor_log2 x) \<le> x" .
  have "floor_log2 x + 1 = - (bitlen ?m - 1)" by (simp add: e)
  then have "pow2 (floor_log2 x + 1) = pow2 (- (bitlen ?m - 1))" by (rule arg_cong)
  also have "\<dots> = 1 / 2 ^ nat (bitlen ?m - 1)"
    by (rule pow2_neg) (use bl in simp)
  finally have "pow2 (floor_log2 x + 1) = 1 / 2 ^ nat (bitlen ?m - 1)" .
  moreover have "x < 1 / 2 ^ nat (bitlen ?m - 1)"
  proof -
    from lo assms have "x * 2 ^ nat (bitlen ?m - 1) < 1"
      by (simp add: field_simps)
    then show ?thesis by (simp add: field_simps)
  qed
  ultimately show "x < pow2 (floor_log2 x + 1)" by simp
qed

lemma floor_log2_bounds:
  assumes "0 < x"
  shows "pow2 (floor_log2 x) \<le> x" and "x < pow2 (floor_log2 x + 1)"
  using floor_log2_ge1 [of x] floor_log2_lt1 [of x] assms
  by (cases "1 \<le> x"; simp)+

lemma floor_log2_ge:
  assumes "pow2 k \<le> x"
  shows "k \<le> floor_log2 x"
proof (rule ccontr)
  assume "\<not> k \<le> floor_log2 x"
  then have "floor_log2 x + 1 \<le> k" by simp
  then have "pow2 (floor_log2 x + 1) \<le> pow2 k" by (rule pow2_mono)
  moreover from assms pow2_pos [of k] have "0 < x" by simp
  then have "x < pow2 (floor_log2 x + 1)" by (rule floor_log2_bounds)
  ultimately show False using assms by simp
qed

lemma floor_log2_less:
  assumes "0 < x" and "x < pow2 k"
  shows "floor_log2 x < k"
proof (rule ccontr)
  assume "\<not> floor_log2 x < k"
  then have "pow2 k \<le> pow2 (floor_log2 x)" by (simp add: pow2_mono)
  with floor_log2_bounds(1) [OF assms(1)] assms(2) show False by simp
qed

lemma round_half_even_error: "\<bar>of_int (round_half_even m) - m\<bar> \<le> 1 / 2"
proof -
  have "of_int \<lfloor>m\<rfloor> \<le> m" "m < of_int \<lfloor>m\<rfloor> + 1" by linarith+
  then show ?thesis
    by (auto simp: round_half_even_def Let_def)
qed

lemma round_half_even_int [simp]: "round_half_even (of_int k) = k"
  by (simp add: round_half_even_def)

lemma to_double_zero [simp]: "to_double 0 = 0"
  by (simp add: to_double_def)

lemma to_double_spacing:
  assumes "x \<noteq> 0"
  shows "\<bar>to_double x - x\<bar> \<le> pow2 (max (floor_log2 \<bar>x\<bar>) (- 1022) - 52) / 2"
proof -
  let ?u = "pow2 (max (floor_log2 \<bar>x\<bar>) (- 1022) - 52)"
  let ?n = "round_half_even (\<bar>x\<bar> / ?u)"
  have u: "0 < ?u" by (rule pow2_pos)
  have td: "to_double x = sgn x * of_int ?n * ?u"
    using assms by (simp add: to_double_def Let_def)
  have "to_double x - x = sgn x * (of_int ?n * ?u - \<bar>x\<bar>)"
    by (simp add: td algebra_simps mult_sgn_abs abs_mult_sgn)
  then have "\<bar>to_double x - x\<bar> = \<bar>of_int ?n * ?u - \<bar>x\<bar>\<bar>"
    using assms by (simp add: abs_mult abs_sgn_eq)
  also have "of_int ?n * ?u - \<bar>x\<bar> = (of_int ?n - \<bar>x\<bar> / ?u) * ?u"
    using u by (simp add: field_simps)
  also have "\<bar>\<dots>\<bar> = \<bar>of_int ?n - \<bar>x\<bar> / ?u\<bar> * ?u"
    using u by (simp add: abs_mult)
  also have "\<dots> \<le> (1 / 2) * ?u"
    by (rule mult_right_mono) (use u round_half_even_error [of "\<bar>x\<bar> / ?u"] in simp_all)
  finally show ?thesis by simp
qed

text \<open>
  The rounding error of one operation: a relative \<open>2^-53\<close> in the normal range, an absolute
  \<open>2^-1075\<close> below it.
\<close>

lemma to_double_error: "\<bar>to_double x - x\<bar> \<le> \<bar>x\<bar> / 2 ^ 53 + 1 / 2 ^ 1075"
proof (cases "x = 0")
  case True
  then show ?thesis by simp
next
  case False
  then have pos: "0 < \<bar>x\<bar>" by simp
  note sp = to_double_spacing [OF False]
  show ?thesis
  proof (cases "- 1022 \<le> floor_log2 \<bar>x\<bar>")
    case True
    then have "max (floor_log2 \<bar>x\<bar>) (- 1022) = floor_log2 \<bar>x\<bar>" by simp
    with sp have "\<bar>to_double x - x\<bar> \<le> pow2 (floor_log2 \<bar>x\<bar> - 52) / 2" by simp
    also have "pow2 (floor_log2 \<bar>x\<bar> - 52) = pow2 (floor_log2 \<bar>x\<bar>) / 2 ^ 52"
      by (simp add: pow2_diff pow2_nat)
    also have "pow2 (floor_log2 \<bar>x\<bar>) / 2 ^ 52 / 2 \<le> \<bar>x\<bar> / 2 ^ 52 / 2"
      using floor_log2_bounds(1) [OF pos] by (simp add: divide_right_mono)
    finally have "\<bar>to_double x - x\<bar> \<le> \<bar>x\<bar> / 2 ^ 53" by simp
    then show ?thesis by (simp add: add_increasing2)
  next
    case False
    then have "max (floor_log2 \<bar>x\<bar>) (- 1022) = - 1022" by simp
    with sp have "\<bar>to_double x - x\<bar> \<le> pow2 (- 1074) / 2" by simp
    also have "pow2 (- 1074) = 1 / 2 ^ 1074"
      using pow2_neg [of 1074] by simp
    finally have "\<bar>to_double x - x\<bar> \<le> 1 / 2 ^ 1075" by simp
    then show ?thesis by (simp add: add_increasing)
  qed
qed

lemma to_double_error_weak: "\<bar>to_double x - x\<bar> \<le> \<bar>x\<bar> / 2 ^ 53 + 1 / 2 ^ 100"
proof -
  have "(1::rat) / 2 ^ 1075 \<le> 1 / 2 ^ 100"
    by (intro divide_left_mono power_increasing) simp_all
  with to_double_error [of x] show ?thesis by linarith
qed

text \<open>Integers below \<open>2^53\<close> are binary64 values.\<close>

lemma to_double_of_nat:
  assumes "n < 2 ^ 53"
  shows "to_double (of_nat n) = of_nat n"
proof (cases "n = 0")
  case True
  then show ?thesis by simp
next
  case False
  let ?x = "of_nat n :: rat"
  let ?e = "floor_log2 ?x"
  from False have x1: "1 \<le> ?x" by simp
  then have x0: "?x \<noteq> 0" "\<bar>?x\<bar> = ?x" "sgn ?x = 1" by simp_all
  have "pow2 0 \<le> ?x" using x1 by (simp add: pow2_def)
  then have e0: "0 \<le> ?e" by (rule floor_log2_ge)
  have "?x < pow2 53" using assms by (simp add: pow2_nat of_nat_less_numeral_power_cancel_iff)
  then have e53: "?e < 53" using x1 by (intro floor_log2_less) simp_all
  from e0 have m: "max ?e (- 1022) = ?e" by simp
  have u: "pow2 (?e - 52) = 1 / 2 ^ nat (52 - ?e)"
    using pow2_neg [of "52 - ?e"] e53 by simp
  have "?x / pow2 (?e - 52) = of_int (int n * 2 ^ nat (52 - ?e))"
    by (simp add: u)
  then have "round_half_even (?x / pow2 (?e - 52)) = int n * 2 ^ nat (52 - ?e)"
    by (simp only: round_half_even_int)
  then have "to_double ?x = of_int (int n * 2 ^ nat (52 - ?e)) * pow2 (?e - 52)"
    using x0 by (simp add: to_double_def Let_def m)
  also have "\<dots> = ?x" by (simp add: u)
  finally show ?thesis .
qed

section \<open>Rounding into a decimal column\<close>





section \<open>Line totals\<close>

lemma parseFloat_error:
  "\<bar>parseFloat c - decimal_value c\<bar> \<le> \<bar>decimal_value c\<bar> / 2 ^ 53 + 1 / 2 ^ 100"
  unfolding parseFloat_def by (rule to_double_error_weak)

lemma int_max_less: "q \<le> int_max \<Longrightarrow> q < 2 ^ 53"
  by (simp add: int_max_def)

text \<open>The computed line total against the exact product of price and quantity.\<close>

lemma itemTotal_error:
  assumes "quantity item \<le> int_max"
  shows "\<bar>itemTotal f item - decimal_value (f_price f) * of_nat (quantity item)\<bar>
           \<le> \<bar>decimal_value (f_price f) * of_nat (quantity item)\<bar> * 3 / 2 ^ 53 + 1 / 2 ^ 60"
proof -
  let ?P = "decimal_value (f_price f)" and ?Q = "of_nat (quantity item) :: rat"
  let ?a = "parseFloat (f_price f)"
  let ?W = "?P * ?Q"
  have q: "to_double ?Q = ?Q" by (rule to_double_of_nat) (rule int_max_less [OF assms])
  have Q0: "0 \<le> ?Q" by simp
  have "quantity item \<le> 2 ^ 31" using assms by (simp add: int_max_def)
  then have Q1: "?Q \<le> 2 ^ 31" by (simp add: of_nat_le_numeral_power_cancel_iff)
  have a: "\<bar>?a - ?P\<bar> \<le> \<bar>?P\<bar> / 2 ^ 53 + 1 / 2 ^ 100" by (rule parseFloat_error)
  have "\<bar>?a * ?Q - ?W\<bar> = \<bar>?a - ?P\<bar> * ?Q"
    using Q0 by (simp add: abs_mult left_diff_distrib [symmetric])
  also have "\<dots> \<le> (\<bar>?P\<bar> / 2 ^ 53 + 1 / 2 ^ 100) * ?Q"
    by (rule mult_right_mono [OF a Q0])
  also have "\<dots> = \<bar>?W\<bar> / 2 ^ 53 + ?Q / 2 ^ 100"
    using Q0 by (simp add: abs_mult algebra_simps)
  also have "\<dots> \<le> \<bar>?W\<bar> / 2 ^ 53 + 2 ^ 31 / 2 ^ 100"
    using Q1 by (simp add: divide_right_mono)
  finally have z0: "\<bar>?a * ?Q - ?W\<bar> \<le> \<bar>?W\<bar> / 2 ^ 53 + 2 ^ 31 / 2 ^ 100" .
  have z: "\<bar>to_double (?a * ?Q) - ?a * ?Q\<bar> \<le> \<bar>?a * ?Q\<bar> / 2 ^ 53 + 1 / 2 ^ 100"
    by (rule to_double_error_weak)
  have "itemTotal f item = to_double (?a * ?Q)"
    by (simp add: itemTotal_def fmul_def q)
  with z0 z show ?thesis by (simp; linarith?)
qed




section \<open>Error of the priced amounts\<close>








section \<open>Stored amounts against the exact amounts\<close>








section \<open>The order transaction\<close>

lemma add_total_orders_frame [simp]:
  "restaurants (add_total_orders fid q w) = restaurants w"
  "cart_items (add_total_orders fid q w) = cart_items w"
  "orders (add_total_orders fid q w) = orders w"
  "order_items (add_total_orders fid q w) = order_items w"
  "next_order_id (add_total_orders fid q w) = next_order_id w"
  by (simp_all add: add_total_orders_def)

lemma insert_items_frame:
  "insert_items oid ls w = (r, w') \<Longrightarrow>
     restaurants w' = restaurants w \<and> cart_items w' = cart_items w \<and>
     orders w' = orders w \<and> next_order_id w' = next_order_id w"
proof (induction ls arbitrary: w)
  case Nil
  then show ?case by simp
next
  case (Cons item rest)
  show ?case
  proof (cases "int_max < l_quantity item \<or> 10 ^ 10 \<le> \<bar>l_unit_price item\<bar>")
    case True
    with Cons.prems show ?thesis by auto
  next
    case False
    show ?thesis
    proof (cases "to_decimal (l_total_price item)")
      case None
      with False Cons.prems show ?thesis by auto
    next
      case (Some line_total)
      let ?w1 = "w\<lparr>order_items := order_items w @ [order_item_row oid item line_total]\<rparr>"
      show ?thesis
      proof (cases "\<exists>f \<in> set (food_items ?w1).
                      f_id f = l_food_item_id item \<and> int_max < f_total_orders f + l_quantity item")
        case True
        with False Some Cons.prems have "w' = ?w1" by (auto simp: Let_def split: if_splits)
        then show ?thesis by simp
      next
        case no_overflow: False
        with False Some Cons.prems
        have "insert_items oid rest (add_total_orders (l_food_item_id item) (l_quantity item) ?w1)
                = (r, w')"
          by (auto simp: Let_def split: if_splits)
        from Cons.IH [OF this] show ?thesis by simp
      qed
    qed
  qed
qed

lemma insert_items_success:
  "insert_items oid ls w = (None, w') \<Longrightarrow>
     order_items w' =
       order_items w @ map (\<lambda>l. order_item_row oid l (the (to_decimal (l_total_price l)))) ls \<and>
     food_items w' =
       map (\<lambda>f. f\<lparr>f_total_orders := f_total_orders f + ordered_quantity ls (f_id f)\<rparr>)
           (food_items w) \<and>
     (\<forall>l \<in> set ls. l_quantity l \<le> int_max \<and> \<bar>l_unit_price l\<bar> < 10 ^ 10 \<and>
                     to_decimal (l_total_price l) \<noteq> None)"
proof (induction ls arbitrary: w)
  case Nil
  then show ?case by (simp add: ordered_quantity_def)
next
  case (Cons item rest)
  from Cons.prems have ok: "\<not> (int_max < l_quantity item \<or> 10 ^ 10 \<le> \<bar>l_unit_price item\<bar>)"
    by (auto split: if_splits)
  with Cons.prems obtain line_total where lt: "to_decimal (l_total_price item) = Some line_total"
    by (cases "to_decimal (l_total_price item)") auto
  let ?w1 = "w\<lparr>order_items := order_items w @ [order_item_row oid item line_total]\<rparr>"
  let ?w2 = "add_total_orders (l_food_item_id item) (l_quantity item) ?w1"
  from Cons.prems ok lt have rest: "insert_items oid rest ?w2 = (None, w')"
    by (auto simp: Let_def split: if_splits)
  note ih = Cons.IH [OF rest]
  have items: "order_items w' =
       order_items w @ map (\<lambda>l. order_item_row oid l (the (to_decimal (l_total_price l)))) (item # rest)"
    using ih lt by simp
  have "food_items w' =
          map (\<lambda>f. f\<lparr>f_total_orders := f_total_orders f + ordered_quantity rest (f_id f)\<rparr>)
              (food_items ?w2)"
    using ih by simp
  also have "\<dots> = map (\<lambda>f. f\<lparr>f_total_orders := f_total_orders f + ordered_quantity (item # rest) (f_id f)\<rparr>)
              (food_items w)"
    by (simp add: add_total_orders_def ordered_quantity_def)
  finally have food: "food_items w' =
     map (\<lambda>f. f\<lparr>f_total_orders := f_total_orders f + ordered_quantity (item # rest) (f_id f)\<rparr>)
         (food_items w)" .
  have "\<forall>l \<in> set (item # rest). l_quantity l \<le> int_max \<and> \<bar>l_unit_price l\<bar> < 10 ^ 10 \<and>
                     to_decimal (l_total_price l) \<noteq> None"
    using ih ok lt by auto
  with items food show ?case by blast
qed


lemma validate_items_Inr:
  "validate_items d rid its t acc = Inr (t', ls) \<longleftrightarrow>
     (\<forall>item \<in> set its. select_food_item d (food_item_id item) rid \<noteq> [] \<and>
                      f_is_available (menu_row d rid item)) \<and>
     t' = foldl fadd t (map (\<lambda>item. itemTotal (menu_row d rid item) item) its) \<and>
     ls = acc @ map (\<lambda>item. order_line (menu_row d rid item) item) its"
proof (induction its arbitrary: t acc)
  case Nil
  then show ?case by auto
next
  case (Cons item rest)
  show ?case
  proof (cases "select_food_item d (food_item_id item) rid")
    case Nil
    then show ?thesis by simp
  next
    case (Cons foodItem others)
    then have row: "menu_row d rid item = foodItem" by (simp add: menu_row_def)
    show ?thesis
    proof (cases "f_is_available foodItem")
      case True
      with Cons row show ?thesis by (simp add: Cons.IH)
    next
      case False
      with Cons row show ?thesis by simp
    qed
  qed
qed

lemma validate_items_Inl:
  assumes "\<exists>item \<in> set its. select_food_item d (food_item_id item) rid = [] \<or>
                          \<not> f_is_available (menu_row d rid item)"
  shows "\<exists>e. validate_items d rid its t acc = Inl e"
proof (cases "validate_items d rid its t acc")
  case (Inl e)
  then show ?thesis by blast
next
  case (Inr p)
  then have "validate_items d rid its t acc = Inr (fst p, snd p)" by simp
  with assms show ?thesis unfolding validate_items_Inr by blast
qed

text \<open>The route without the connection: what the transaction makes of each outcome.\<close>

lemma create_order_unfold:
  assumes "user_type u = Customer" and "valid_order_request req"
  shows "create_order env u req d =
     (case filter (\<lambda>r. r_id r = restaurant_id req \<and> r_is_active r) (restaurants d) of
        [] \<Rightarrow> (Inl (AppError ''Restaurant not found or inactive'' 404), d, [])
      | restaurant # _ \<Rightarrow>
          (case validate_items d (restaurant_id req) (items req) 0 [] of
             Inl e \<Rightarrow> (Inl e, d, [])
           | Inr (totalAmount, orderItems) \<Rightarrow>
               (case insert_order env u req restaurant totalAmount d of
                  Inl e \<Rightarrow> (Inl e, d, [])
                | Inr (w1, orderId) \<Rightarrow>
                    (case insert_items orderId orderItems w1 of
                       (Some e, w2) \<Rightarrow> (Inl e, d, [])
                     | (None, w2) \<Rightarrow>
                         (if emit_throws env
                          then (Inl (OtherError ''emit''),
                                clear_cart (user_id u) (restaurant_id req) w2, [])
                          else
                            (Inr (201, OrderPlaced
                                    (case select_order orderId
                                            (clear_cart (user_id u) (restaurant_id req) w2) of
                                       [] \<Rightarrow> None | row # _ \<Rightarrow> Some row)
                                    (select_order_items orderId
                                       (clear_cart (user_id u) (restaurant_id req) w2))),
                             clear_cart (user_id u) (restaurant_id req) w2,
                             [NewOrder (''restaurant_'' @ toString (restaurant_id req))
                                orderId (generateOrderNumber (now env) (random_floor env))
                                (first_name u @ '' '' @ last_name u)
                                (finalAmount totalAmount (deliveryFee restaurant))
                                (length (items req))]))))))"
  using assms
  by (simp add: create_order_def order_try_def beginTransaction_def commit_def rollback_def
        Let_def split: list.split sum.split prod.split option.split)

lemma validate_items_error:
  "validate_items d rid its t acc = Inl e \<Longrightarrow> 400 \<le> fst (errorHandler e)"
proof (induction its arbitrary: t acc)
  case Nil
  then show ?case by simp
next
  case (Cons item rest)
  show ?case
  proof (cases "select_food_item d (food_item_id item) rid")
    case Nil
    with Cons.prems show ?thesis by (auto simp: errorHandler_def)
  next
    case (Cons foodItem others)
    show ?thesis
    proof (cases "f_is_available foodItem")
      case True
      with Cons Cons.prems Cons.IH show ?thesis by simp
    next
      case False
      with Cons Cons.prems show ?thesis by (auto simp: errorHandler_def)
    qed
  qed
qed

lemma out_of_range_status: "fst (errorHandler out_of_range) = 500"
  by (simp add: errorHandler_def out_of_range_def)

lemma insert_order_error:
  "insert_order env u req restaurant totalAmount w = Inl e \<Longrightarrow>
     e = DbError ''ER_DUP_ENTRY'' \<or> e = out_of_range"
  by (auto simp: insert_order_def split: option.splits if_splits)

lemma insert_order_error_status:
  "insert_order env u req restaurant totalAmount w = Inl e \<Longrightarrow> 400 \<le> fst (errorHandler e)"
proof -
  assume "insert_order env u req restaurant totalAmount w = Inl e"
  then have "e = DbError ''ER_DUP_ENTRY'' \<or> e = out_of_range" by (rule insert_order_error)
  moreover have "fst (errorHandler (DbError ''ER_DUP_ENTRY'')) = 400"
    by (simp add: errorHandler_def)
  ultimately show ?thesis using out_of_range_status by auto
qed

lemma insert_items_error:
  "insert_items oid ls w = (Some e, w') \<Longrightarrow> e = out_of_range"
proof (induction ls arbitrary: w)
  case Nil
  then show ?case by simp
next
  case (Cons item rest)
  then show ?case
    by (auto simp: Let_def split: if_splits option.splits)
qed

lemma insert_order_success:
  assumes "insert_order env u req restaurant totalAmount w = Inr (w1, orderId)"
  shows "orderId = next_order_id w"
    and "\<exists>row. orders w1 = orders w @ [row] \<and> o_id row = orderId \<and>
               o_customer_id row = user_id u \<and> o_restaurant_id row = restaurant_id req \<and>
               o_order_number row = generateOrderNumber (now env) (random_floor env) \<and>
               o_status row = ''pending'' \<and> o_discount_amount row = 0 \<and>
               o_delivered_at row = None \<and>
               to_decimal totalAmount = Some (o_total_amount row) \<and>
               to_decimal (deliveryFee restaurant) = Some (o_delivery_fee row) \<and>
               to_decimal (taxAmount totalAmount) = Some (o_tax_amount row) \<and>
               to_decimal (finalAmount totalAmount (deliveryFee restaurant))
                 = Some (o_final_amount row)"
    and "order_items w1 = order_items w" and "food_items w1 = food_items w"
    and "cart_items w1 = cart_items w" and "restaurants w1 = restaurants w"
    and "\<forall>row \<in> set (orders w). o_order_number row \<noteq> generateOrderNumber (now env) (random_floor env)"
  using assms by (auto simp: insert_order_def split: option.splits if_splits)

lemma clear_cart_frame [simp]:
  "restaurants (clear_cart cid rid w) = restaurants w"
  "food_items (clear_cart cid rid w) = food_items w"
  "orders (clear_cart cid rid w) = orders w"
  "order_items (clear_cart cid rid w) = order_items w"
  "next_order_id (clear_cart cid rid w) = next_order_id w"
  by (simp_all add: clear_cart_def)

lemma clear_cart_cart_items:
  "cart_items (clear_cart cid rid w) = filter (\<lambda>ci. \<not> in_cart_of w cid rid ci) (cart_items w)"
  by (simp add: clear_cart_def in_cart_of_def)

lemma in_cart_of_counters:
  assumes "food_items w = map (\<lambda>f. f\<lparr>f_total_orders := g f\<rparr>) (food_items d)"
  shows "in_cart_of w cid rid ci = in_cart_of d cid rid ci"
  by (auto simp: in_cart_of_def assms)

text \<open>The three ways a creation request can end.\<close>

lemma create_order_outcome:
  obtains
    (refused) code msg where
      "create_order env u req d = (Inr (code, Failure msg), d, [])" and "400 \<le> code"
  | (rolled_back) e where
      "create_order env u req d = (Inl e, d, [])" and "400 \<le> fst (errorHandler e)"
  | (committed) restaurant rs totalAmount orderItems w1 orderId w2 where
      "user_type u = Customer" and "valid_order_request req"
      and "filter (\<lambda>r. r_id r = restaurant_id req \<and> r_is_active r) (restaurants d) = restaurant # rs"
      and "validate_items d (restaurant_id req) (items req) 0 [] = Inr (totalAmount, orderItems)"
      and "insert_order env u req restaurant totalAmount d = Inr (w1, orderId)"
      and "insert_items orderId orderItems w1 = (None, w2)"
      and "fst (snd (create_order env u req d)) = clear_cart (user_id u) (restaurant_id req) w2"
      and "fst (create_order env u req d) =
             (if emit_throws env then Inl (OtherError ''emit'')
              else Inr (201, OrderPlaced
                     (case select_order orderId (clear_cart (user_id u) (restaurant_id req) w2) of
                        [] \<Rightarrow> None | row # _ \<Rightarrow> Some row)
                     (select_order_items orderId (clear_cart (user_id u) (restaurant_id req) w2))))"
      and "snd (snd (create_order env u req d)) =
             (if emit_throws env then []
              else [NewOrder (''restaurant_'' @ toString (restaurant_id req))
                      orderId (generateOrderNumber (now env) (random_floor env))
                      (first_name u @ '' '' @ last_name u)
                      (finalAmount totalAmount (deliveryFee restaurant))
                      (length (items req))])"
proof (cases "user_type u = Customer \<and> valid_order_request req")
  case False
  then have "create_order env u req d = (Inr (403, Failure ''Insufficient permissions''), d, []) \<or>
             create_order env u req d = (Inr (400, Failure ''Validation failed''), d, [])"
    by (auto simp: create_order_def)
  then show ?thesis using refused by auto
next
  case True
  then have cu: "user_type u = Customer" and va: "valid_order_request req" by simp_all
  note unf = create_order_unfold [OF cu va, of env d]
  show ?thesis
  proof (cases "filter (\<lambda>r. r_id r = restaurant_id req \<and> r_is_active r) (restaurants d)")
    case Nil
    with unf have "create_order env u req d =
        (Inl (AppError ''Restaurant not found or inactive'' 404), d, [])" by simp
    then show ?thesis using rolled_back by (simp add: errorHandler_def)
  next
    case (Cons restaurant rs)
    note re = Cons
    show ?thesis
    proof (cases "validate_items d (restaurant_id req) (items req) 0 []")
      case (Inl e)
      with unf re have "create_order env u req d = (Inl e, d, [])" by simp
      then show ?thesis using rolled_back validate_items_error [OF Inl] by blast
    next
      case (Inr p)
      obtain totalAmount orderItems where p: "p = (totalAmount, orderItems)" by (cases p)
      note va' = Inr [unfolded p]
      show ?thesis
      proof (cases "insert_order env u req restaurant totalAmount d")
        case (Inl e)
        with unf re va' have "create_order env u req d = (Inl e, d, [])" by simp
        then show ?thesis using rolled_back insert_order_error_status [OF Inl] by blast
      next
        case (Inr q)
        obtain w1 orderId where q: "q = (w1, orderId)" by (cases q)
        note io = Inr [unfolded q]
        obtain r w2 where ii: "insert_items orderId orderItems w1 = (r, w2)"
          by (cases "insert_items orderId orderItems w1")
        show ?thesis
        proof (cases r)
          case (Some e)
          with unf re va' io ii have "create_order env u req d = (Inl e, d, [])" by simp
          moreover from ii Some have "e = out_of_range" by (simp add: insert_items_error)
          ultimately show ?thesis using rolled_back out_of_range_status by simp
        next
          case None
          note ii' = ii [unfolded None]
          from unf re va' io ii'
          have 1: "fst (snd (create_order env u req d)) =
                     clear_cart (user_id u) (restaurant_id req) w2"
            and 2: "fst (create_order env u req d) =
             (if emit_throws env then Inl (OtherError ''emit'')
              else Inr (201, OrderPlaced
                     (case select_order orderId (clear_cart (user_id u) (restaurant_id req) w2) of
                        [] \<Rightarrow> None | row # _ \<Rightarrow> Some row)
                     (select_order_items orderId (clear_cart (user_id u) (restaurant_id req) w2))))"
            and 3: "snd (snd (create_order env u req d)) =
             (if emit_throws env then []
              else [NewOrder (''restaurant_'' @ toString (restaurant_id req))
                      orderId (generateOrderNumber (now env) (random_floor env))
                      (first_name u @ '' '' @ last_name u)
                      (finalAmount totalAmount (deliveryFee restaurant))
                      (length (items req))])"
            by simp_all
          show ?thesis by (rule committed [OF cu va re va' io ii' 1 2 3])
        qed
      qed
    qed
  qed
qed

lemma ordered_quantity_lines:
  "ordered_quantity (map (\<lambda>item. order_line (g item) item) its) fid = requested_quantity its fid"
  by (induction its) (simp_all add: ordered_quantity_def requested_quantity_def order_line_def)

text \<open>The committed state in terms of the state before.\<close>

lemma committed_state:
  assumes va: "validate_items d (restaurant_id req) (items req) 0 [] = Inr (totalAmount, orderItems)"
    and io: "insert_order env u req restaurant totalAmount d = Inr (w1, orderId)"
    and ii: "insert_items orderId orderItems w1 = (None, w2)"
  defines "d' \<equiv> clear_cart (user_id u) (restaurant_id req) w2"
  shows "\<exists>row. orders d' = orders d @ [row] \<and> o_id row = orderId \<and>
               o_customer_id row = user_id u \<and> o_restaurant_id row = restaurant_id req \<and>
               o_order_number row = generateOrderNumber (now env) (random_floor env)"
    and "order_items d' =
           order_items d @
           map (\<lambda>l. order_item_row orderId l (the (to_decimal (l_total_price l)))) orderItems"
    and "orderItems = map (\<lambda>item. order_line (menu_row d (restaurant_id req) item) item) (items req)"
    and "food_items d' =
           map (\<lambda>f. f\<lparr>f_total_orders := f_total_orders f + requested_quantity (items req) (f_id f)\<rparr>)
               (food_items d)"
    and "cart_items d' =
           filter (\<lambda>ci. \<not> in_cart_of d (user_id u) (restaurant_id req) ci) (cart_items d)"
    and "restaurants d' = restaurants d"
proof -
  note o = insert_order_success [OF io]
  note f = insert_items_frame [OF ii]
  note s = insert_items_success [OF ii]
  from va show li: "orderItems =
      map (\<lambda>item. order_line (menu_row d (restaurant_id req) item) item) (items req)"
    by (simp add: validate_items_Inr)
  from o(2) f show "\<exists>row. orders d' = orders d @ [row] \<and> o_id row = orderId \<and>
               o_customer_id row = user_id u \<and> o_restaurant_id row = restaurant_id req \<and>
               o_order_number row = generateOrderNumber (now env) (random_floor env)"
    by (auto simp: d'_def)
  from s o(3) show "order_items d' =
           order_items d @
           map (\<lambda>l. order_item_row orderId l (the (to_decimal (l_total_price l)))) orderItems"
    by (simp add: d'_def)
  have "ordered_quantity orderItems fid = requested_quantity (items req) fid" for fid
    unfolding li by (rule ordered_quantity_lines)
  with s o(4) show fo: "food_items d' =
           map (\<lambda>f. f\<lparr>f_total_orders := f_total_orders f + requested_quantity (items req) (f_id f)\<rparr>)
               (food_items d)"
    by (simp add: d'_def)
  from fo have "food_items w2 =
           map (\<lambda>f. f\<lparr>f_total_orders := f_total_orders f + requested_quantity (items req) (f_id f)\<rparr>)
               (food_items d)"
    by (simp add: d'_def)
  then have "in_cart_of w2 cid rid ci = in_cart_of d cid rid ci" for cid rid ci
    by (rule in_cart_of_counters)
  with f o(5) show "cart_items d' =
           filter (\<lambda>ci. \<not> in_cart_of d (user_id u) (restaurant_id req) ci) (cart_items d)"
    by (simp add: d'_def clear_cart_cart_items)
  from f o(6) show "restaurants d' = restaurants d" by (simp add: d'_def)
qed


lemma created_is_committed:
  assumes "status_code (fst (create_order env u req d)) = 201"
  obtains restaurant rs totalAmount orderItems w1 orderId w2 where
      "filter (\<lambda>r. r_id r = restaurant_id req \<and> r_is_active r) (restaurants d) = restaurant # rs"
      and "validate_items d (restaurant_id req) (items req) 0 [] = Inr (totalAmount, orderItems)"
      and "insert_order env u req restaurant totalAmount d = Inr (w1, orderId)"
      and "insert_items orderId orderItems w1 = (None, w2)"
      and "fst (snd (create_order env u req d)) = clear_cart (user_id u) (restaurant_id req) w2"
proof (cases rule: create_order_outcome [of env u req d])
  case (refused code msg)
  with assms show ?thesis by (simp add: status_code_def)
next
  case (rolled_back e)
  with assms show ?thesis by (simp add: status_code_def)
next
  case (committed restaurant rs totalAmount orderItems w1 orderId w2)
  show ?thesis by (rule that [OF committed(3,4,5,6,7)])
qed

lemma insert_order_emit:
  "insert_order (env\<lparr>emit_throws := b\<rparr>) u req restaurant totalAmount w =
     insert_order env u req restaurant totalAmount w"
  by (simp add: insert_order_def split: option.split prod.split)

lemma create_order_emit_state:
  "fst (snd (create_order (env\<lparr>emit_throws := b\<rparr>) u req d)) = fst (snd (create_order env u req d))"
proof (cases "user_type u = Customer \<and> valid_order_request req")
  case False
  then show ?thesis by (auto simp: create_order_def)
next
  case True
  then have cu: "user_type u = Customer" and va: "valid_order_request req" by simp_all
  show ?thesis
    unfolding create_order_unfold [OF cu va] insert_order_emit
    by (simp split: list.split sum.split prod.split option.split)
qed

lemma created_with_raising_emit:
  assumes "status_code (fst (create_order (env\<lparr>emit_throws := False\<rparr>) u req d)) = 201"
  shows "fst (create_order (env\<lparr>emit_throws := True\<rparr>) u req d) = Inl (OtherError ''emit'')"
    and "snd (snd (create_order (env\<lparr>emit_throws := True\<rparr>) u req d)) = []"
proof -
  from assms obtain restaurant rs totalAmount orderItems w1 orderId w2 where
    re: "filter (\<lambda>r. r_id r = restaurant_id req \<and> r_is_active r) (restaurants d) = restaurant # rs"
    and va: "validate_items d (restaurant_id req) (items req) 0 [] = Inr (totalAmount, orderItems)"
    and io: "insert_order (env\<lparr>emit_throws := False\<rparr>) u req restaurant totalAmount d = Inr (w1, orderId)"
    and ii: "insert_items orderId orderItems w1 = (None, w2)"
    by (rule created_is_committed)
  have cv: "user_type u = Customer" "valid_order_request req"
    using assms by (auto simp: create_order_def status_code_def split: if_splits)
  from io have io': "insert_order (env\<lparr>emit_throws := True\<rparr>) u req restaurant totalAmount d = Inr (w1, orderId)"
    by (simp add: insert_order_emit)
  show "fst (create_order (env\<lparr>emit_throws := True\<rparr>) u req d) = Inl (OtherError ''emit'')"
    and "snd (snd (create_order (env\<lparr>emit_throws := True\<rparr>) u req d)) = []"
    by (simp_all add: create_order_unfold [OF cv] re va io' ii)
qed

lemma dispatched_is_committed:
  assumes "NewOrder room oid num name amt n \<in> set (snd (snd (create_order env u req d)))"
  shows "\<exists>row \<in> set (orders (fst (snd (create_order env u req d)))). o_id row = oid \<and> o_order_number row = num"
proof (cases rule: create_order_outcome [of env u req d])
  case (refused code msg)
  with assms show ?thesis by simp
next
  case (rolled_back e)
  with assms show ?thesis by simp
next
  case (committed restaurant rs totalAmount orderItems w1 orderId w2)
  from assms committed(9) have "oid = orderId"
    and "num = generateOrderNumber (now env) (random_floor env)"
    by (auto split: if_splits)
  with committed_state(1) [OF committed(4,5,6)] show ?thesis
    unfolding committed(7) by auto
qed

lemma insert_order_amounts:
  assumes "insert_order env u req restaurant totalAmount w = Inr (w1, orderId)"
  shows "\<exists>a b c e. to_decimal totalAmount = Some a \<and> to_decimal (deliveryFee restaurant) = Some b \<and>
           to_decimal (taxAmount totalAmount) = Some c \<and>
           to_decimal (finalAmount totalAmount (deliveryFee restaurant)) = Some e"
  using assms by (auto simp: insert_order_def split: option.splits)

lemma insert_order_duplicate:
  assumes "to_decimal totalAmount = Some a" and "to_decimal (deliveryFee restaurant) = Some b"
    and "to_decimal (taxAmount totalAmount) = Some c"
    and "to_decimal (finalAmount totalAmount (deliveryFee restaurant)) = Some e"
    and "\<exists>row \<in> set (orders w). o_order_number row = generateOrderNumber (now env) (random_floor env)"
  shows "insert_order env u req restaurant totalAmount w = Inl (DbError ''ER_DUP_ENTRY'')"
  using assms by (simp add: insert_order_def)

lemma committed_order_row:
  assumes io: "insert_order env u req restaurant totalAmount d = Inr (w1, orderId)"
    and ii: "insert_items orderId orderItems w1 = (None, w2)"
  shows "o_status (last (orders (clear_cart cid rid w2))) = ''pending''"
    and "o_discount_amount (last (orders (clear_cart cid rid w2))) = 0"
    and "to_decimal totalAmount = Some (o_total_amount (last (orders (clear_cart cid rid w2))))"
    and "to_decimal (deliveryFee restaurant) =
           Some (o_delivery_fee (last (orders (clear_cart cid rid w2))))"
    and "to_decimal (taxAmount totalAmount) =
           Some (o_tax_amount (last (orders (clear_cart cid rid w2))))"
    and "to_decimal (finalAmount totalAmount (deliveryFee restaurant)) =
           Some (o_final_amount (last (orders (clear_cart cid rid w2))))"
proof -
  from insert_order_success(2) [OF io] obtain row where
    row: "orders w1 = orders d @ [row]" "o_status row = ''pending''" "o_discount_amount row = 0"
      "to_decimal totalAmount = Some (o_total_amount row)"
      "to_decimal (deliveryFee restaurant) = Some (o_delivery_fee row)"
      "to_decimal (taxAmount totalAmount) = Some (o_tax_amount row)"
      "to_decimal (finalAmount totalAmount (deliveryFee restaurant)) = Some (o_final_amount row)"
    by blast
  from insert_items_frame [OF ii] row(1)
  have "last (orders (clear_cart cid rid w2)) = row" by simp
  with row show
    "o_status (last (orders (clear_cart cid rid w2))) = ''pending''"
    "o_discount_amount (last (orders (clear_cart cid rid w2))) = 0"
    "to_decimal totalAmount = Some (o_total_amount (last (orders (clear_cart cid rid w2))))"
    "to_decimal (deliveryFee restaurant) =
           Some (o_delivery_fee (last (orders (clear_cart cid rid w2))))"
    "to_decimal (taxAmount totalAmount) =
           Some (o_tax_amount (last (orders (clear_cart cid rid w2))))"
    "to_decimal (finalAmount totalAmount (deliveryFee restaurant)) =
           Some (o_final_amount (last (orders (clear_cart cid rid w2))))"
    by simp_all
qed

lemma created_event:
  assumes "status_code (fst (create_order env u req d)) = 201"
  shows "event_amounts (snd (snd (create_order env u req d))) = [float_final d req]"
proof (cases rule: create_order_outcome [of env u req d])
  case (refused code msg)
  with assms show ?thesis by (simp add: status_code_def)
next
  case (rolled_back e)
  with assms show ?thesis by (simp add: status_code_def)
next
  case (committed restaurant rs totalAmount orderItems w1 orderId w2)
  from committed(8) assms have em: "\<not> emit_throws env"
    by (auto simp: status_code_def errorHandler_def split: if_splits)
  from committed(4) have total: "totalAmount = float_subtotal d req"
    unfolding validate_items_Inr by (simp add: float_subtotal_def)
  have "selected_restaurant d req = restaurant"
    by (simp add: selected_restaurant_def committed(3))
  with committed(9) em total show ?thesis by (simp add: float_final_def)
qed

section \<open>The example order, evaluated\<close>

lemma ex_numbers:
  "fmul (parseFloat 1000) (to_double 2) = 20"
  "fmul (parseFloat 500) (to_double 1) = 5"
  "fadd 0 20 = 20" "fadd 20 5 = 25"
  "parseFloat 250 = 5 / 2"
  "fmul 25 (to_double (1 / 20)) = 5 / 4"
  "fadd (fadd 25 (5 / 2)) (5 / 4) = 115 / 4"
  "to_decimal 25 = Some 2500" "to_decimal (5 / 2) = Some 250" "to_decimal (5 / 4) = Some 125"
  "to_decimal (115 / 4) = Some 2875" "to_decimal 20 = Some 2000" "to_decimal 5 = Some 500"
  by code_simp+

lemma ex_validate:
  "validate_items ex_db (restaurant_id ex_req) (items ex_req) 0 [] = Inr (25, ex_lines)"
  by (simp add: ex_db_def ex_req_def select_food_item_def itemTotal_def order_line_def
        or_null_def ex_numbers ex_lines_def)

lemma ex_order_number: "generateOrderNumber (now ex_env) (random_floor ex_env) = ''ORD-123456007''"
  by (simp add: ex_env_def generateOrderNumber_def slice_last_def padStart_def toString.simps
        digit_char_def replicate_2)

lemma ex_select_restaurant:
  "filter (\<lambda>r. r_id r = restaurant_id ex_req \<and> r_is_active r) (restaurants ex_db) =
     [ex_restaurant]"
  by (simp add: ex_db_def ex_req_def ex_restaurant_def)

lemma ex_insert_order:
  "insert_order ex_env alice ex_req ex_restaurant 25 ex_db =
     Inr (ex_db\<lparr>orders := [ex_new_order], next_order_id := 43\<rparr>, 42)"
  by (simp add: insert_order_def deliveryFee_def taxAmount_def finalAmount_def ex_numbers
        ex_order_number ex_new_order_def ex_restaurant_def)
     (simp add: ex_db_def ex_req_def alice_def ex_env_def)

lemma ex_insert_items:
  "insert_items 42 ex_lines (ex_db\<lparr>orders := [ex_new_order], next_order_id := 43\<rparr>) =
     (None, ex_db_after\<lparr>cart_items := cart_items ex_db\<rparr>)"
  by (simp add: ex_numbers int_max_def order_item_row_def add_total_orders_def ex_db_def
        ex_db_after_def ex_new_items_def ex_lines_def Let_def)

lemma ex_clear_cart:
  "clear_cart (user_id alice) (restaurant_id ex_req) (ex_db_after\<lparr>cart_items := cart_items ex_db\<rparr>)
     = ex_db_after"
  by (simp add: clear_cart_def ex_db_after_def ex_db_def alice_def ex_req_def)

lemma ex_valid: "user_type alice = Customer" "valid_order_request ex_req"
  by (simp_all add: alice_def valid_order_request_def ex_req_def)

lemma ex_response:
  "select_order 42 ex_db_after = [ex_new_order]"
  "select_order_items 42 ex_db_after = ex_new_items"
  "''restaurant_'' @ toString (restaurant_id ex_req) = ''restaurant_1''"
  "first_name alice @ '' '' @ last_name alice = ''Alice A''"
  "finalAmount 25 (deliveryFee ex_restaurant) = 115 / 4"
  "length (items ex_req) = 2"
  "emit_throws ex_env = False"
  by (simp_all add: select_order_def select_order_items_def ex_db_after_def ex_new_order_def
        ex_new_items_def ex_req_def alice_def toString.simps digit_char_def finalAmount_def
        deliveryFee_def taxAmount_def ex_restaurant_def ex_numbers ex_env_def)

lemma ex_created:
  "create_order ex_env alice ex_req ex_db =
     (Inr (201, OrderPlaced (Some ex_new_order) ex_new_items), ex_db_after,
      [NewOrder ''restaurant_1'' 42 ''ORD-123456007'' ''Alice A'' (115 / 4) 2])"
  by (simp only: create_order_unfold [OF ex_valid] ex_select_restaurant ex_validate
        ex_insert_order ex_insert_items ex_clear_cart ex_response ex_order_number
        list.case sum.case prod.case option.case if_False)

lemma ex_env_emit: "ex_env\<lparr>emit_throws := False\<rparr> = ex_env"
  by (simp add: ex_env_def)

lemma ex_fresh_draw:
  "status_code (fst (create_order (ex_env\<lparr>random_floor := 8\<rparr>) alice ex_req ex_db_delivered)) = 201"
proof -
  have re: "filter (\<lambda>r. r_id r = restaurant_id ex_req \<and> r_is_active r) (restaurants ex_db_delivered)
              = [ex_restaurant]"
    by (simp add: ex_db_delivered_def ex_db_def ex_req_def ex_restaurant_def)
  have va: "validate_items ex_db_delivered (restaurant_id ex_req) (items ex_req) 0 [] = Inr (25, ex_lines)"
    by (simp add: ex_db_delivered_def ex_db_def ex_req_def select_food_item_def itemTotal_def
          order_line_def or_null_def ex_numbers ex_lines_def)
  have nu: "generateOrderNumber (now ex_env) 8 = ''ORD-123456008''"
    by (simp add: ex_env_def generateOrderNumber_def slice_last_def padStart_def toString.simps
          digit_char_def replicate_2)
  let ?w1 = "ex_db_delivered\<lparr>orders := [ex_order, ex_new_order\<lparr>o_order_number := ''ORD-123456008''\<rparr>],
                             next_order_id := 43\<rparr>"
  have io: "insert_order (ex_env\<lparr>random_floor := 8\<rparr>) alice ex_req ex_restaurant 25
            ex_db_delivered = Inr (?w1, 42)"
    by (simp add: insert_order_def deliveryFee_def taxAmount_def finalAmount_def ex_numbers nu
          ex_restaurant_def ex_new_order_def)
       (simp add: ex_db_delivered_def ex_order_def ex_req_def alice_def ex_env_def)
  have "fst (insert_items 42 ex_lines ?w1) = None"
    by (simp add: ex_numbers int_max_def order_item_row_def add_total_orders_def ex_db_def
          ex_db_delivered_def ex_lines_def Let_def)
  then obtain w2 where ii: "insert_items 42 ex_lines ?w1 = (None, w2)"
    by (cases "insert_items 42 ex_lines ?w1") simp
  have em: "emit_throws ex_env = False" by (simp add: ex_env_def)
  show ?thesis
    by (simp add: create_order_unfold [OF ex_valid] re va io ii em status_code_def)
qed


lemma ex_c_numbers:
  "fmul (parseFloat 10) (to_double 3) = 1351079888211149 / 4503599627370496"
  "fadd 0 (1351079888211149 / 4503599627370496) = 1351079888211149 / 4503599627370496"
  "fmul (1351079888211149 / 4503599627370496) (to_double (1 / 20)) =
     4323455642275677 / 288230376151711744"
  "fadd (fadd (1351079888211149 / 4503599627370496) 0) (4323455642275677 / 288230376151711744) =
     2837267765243413 / 9007199254740992"
  "to_decimal (1351079888211149 / 4503599627370496) = Some 30"
  "to_decimal 0 = Some 0"
  "to_decimal (4323455642275677 / 288230376151711744) = Some 2"
  "to_decimal (2837267765243413 / 9007199254740992) = Some 32"
  by code_simp+

lemma ex_c_subtotal:
  "float_subtotal ex_db ex_req_c = 1351079888211149 / 4503599627370496"
  by (simp add: float_subtotal_def menu_row_def select_food_item_def ex_db_def ex_req_c_def
        itemTotal_def ex_c_numbers)

lemma ex_c_restaurant:
  "filter (\<lambda>r. r_id r = restaurant_id ex_req_c \<and> r_is_active r) (restaurants ex_db) =
     [\<lparr>r_id = 2, r_cook_id = 11, r_is_active = True, r_delivery_fee = None\<rparr>]"
  by (simp add: ex_db_def ex_req_c_def)

lemma ex_c_final:
  "float_final ex_db ex_req_c = 2837267765243413 / 9007199254740992"
  by (simp add: float_final_def ex_c_subtotal selected_restaurant_def ex_c_restaurant
        deliveryFee_def finalAmount_def taxAmount_def ex_c_numbers)

lemma ex_c_exact:
  "exact_subtotal ex_db ex_req_c = 30" "restaurant_fee ex_db ex_req_c = 0"
  by (simp_all add: exact_subtotal_def restaurant_fee_def selected_restaurant_def ex_c_restaurant
        menu_row_def select_food_item_def ex_db_def ex_req_c_def)

lemma ex_c_created: "status_code (fst (create_order ex_env bob ex_req_c ex_db)) = 201"
proof -
  have valid: "user_type bob = Customer" "valid_order_request ex_req_c"
    by (simp_all add: bob_def valid_order_request_def ex_req_c_def)
  let ?line = "\<lparr>l_food_item_id = 3, l_quantity = 3, l_unit_price = 10,
                 l_total_price = 1351079888211149 / 4503599627370496, l_special_requests = None\<rparr>"
  have va: "validate_items ex_db (restaurant_id ex_req_c) (items ex_req_c) 0 [] =
              Inr (1351079888211149 / 4503599627370496, [?line])"
    by (simp add: ex_db_def ex_req_c_def select_food_item_def itemTotal_def order_line_def
          or_null_def ex_c_numbers)
  let ?row = "\<lparr>o_id = 42, o_customer_id = 8, o_restaurant_id = 2, o_order_number = ''ORD-123456007'',
      o_status = ''pending'', o_total_amount = 30, o_delivery_fee = 0, o_tax_amount = 2,
      o_discount_amount = 0, o_final_amount = 32, o_payment_method = ''card'',
      o_delivery_address = ''{}'', o_special_instructions = None,
      o_estimated_delivery_time = 1700002823456, o_delivered_at = None\<rparr>"
  let ?w1 = "ex_db\<lparr>orders := [?row], next_order_id := 43\<rparr>"
  have io: "insert_order ex_env bob ex_req_c
              \<lparr>r_id = 2, r_cook_id = 11, r_is_active = True, r_delivery_fee = None\<rparr>
              (1351079888211149 / 4503599627370496) ex_db = Inr (?w1, 42)"
    by (simp add: insert_order_def deliveryFee_def taxAmount_def finalAmount_def ex_c_numbers
          ex_order_number)
       (simp add: ex_db_def ex_req_c_def bob_def ex_env_def)
  have "fst (insert_items 42 [?line] ?w1) = None"
    by (simp add: ex_c_numbers int_max_def order_item_row_def add_total_orders_def ex_db_def Let_def)
  then obtain w2 where ii: "insert_items 42 [?line] ?w1 = (None, w2)"
    by (cases "insert_items 42 [?line] ?w1") simp
  have em: "emit_throws ex_env = False" by (simp add: ex_env_def)
  show ?thesis
    by (simp only: create_order_unfold [OF valid] ex_c_restaurant va io ii em status_code_def
          list.case sum.case prod.case option.case if_False fst_conv)
qed


section \<open>Who may read an order and change its status\<close>



lemma cook_restaurants_head:
  "cook_restaurants u d = r # rs \<Longrightarrow> r \<in> set (restaurants d) \<and> r_cook_id r = user_id u"
proof -
  assume "cook_restaurants u d = r # rs"
  then have "r \<in> set (filter (\<lambda>r. r_cook_id r = user_id u) (restaurants d))"
    by (simp add: cook_restaurants_def)
  then show ?thesis by simp
qed

lemma cook_denied:
  assumes "\<forall>r \<in> set (restaurants d). r_cook_id r = user_id u \<longrightarrow> r_id r \<noteq> rid"
  shows "(case cook_restaurants u d of [] \<Rightarrow> True | r # _ \<Rightarrow> rid \<noteq> r_id r)"
proof (cases "cook_restaurants u d")
  case Nil
  then show ?thesis by simp
next
  case (Cons r rs)
  from cook_restaurants_head [OF Cons] assms have "r_id r \<noteq> rid" by blast
  with Cons show ?thesis by auto
qed

lemma cook_allowed:
  assumes "\<not> (case cook_restaurants u d of [] \<Rightarrow> True | r # _ \<Rightarrow> rid \<noteq> r_id r)"
  shows "\<exists>r \<in> set (restaurants d). r_cook_id r = user_id u \<and> r_id r = rid"
proof (cases "cook_restaurants u d")
  case Nil
  with assms show ?thesis by simp
next
  case (Cons r rs)
  with assms have "r_id r = rid" by simp
  with cook_restaurants_head [OF Cons] show ?thesis by blast
qed

lemma valid_statuses_iff:
  "status \<in> set valid_statuses \<longleftrightarrow>
     status = ''pending'' \<or> status = ''confirmed'' \<or> status = ''preparing'' \<or>
     status = ''sent_to_delivery'' \<or> status = ''delivered'' \<or> status = ''cancelled''"
  by (simp add: valid_statuses_def)

lemma get_order_customer_denied:
  assumes "select_order X d = order # others"
    and "user_type u = Customer" and "o_customer_id order \<noteq> user_id u"
  shows "get_order u X d = Inl (AppError ''Unauthorized to view this order'' 403)"
  using assms by (simp add: get_order_def)

lemma get_order_cook_denied:
  assumes "select_order X d = order # others"
    and "user_type u = Cook"
    and "\<forall>r \<in> set (restaurants d). r_cook_id r = user_id u \<longrightarrow> r_id r \<noteq> o_restaurant_id order"
  shows "get_order u X d = Inl (AppError ''Unauthorized to view this order'' 403)"
  using assms(1,2) cook_denied [OF assms(3)] by (simp add: get_order_def)

lemma update_status_cook_denied:
  assumes "select_order X d = order # others"
    and "status \<in> set valid_statuses"
    and "user_type u = Cook"
    and "\<forall>r \<in> set (restaurants d). r_cook_id r = user_id u \<longrightarrow> r_id r \<noteq> o_restaurant_id order"
  shows "update_status env u X status d =
           (Inl (AppError ''Unauthorized to update this order'' 403), d, [])"
  using assms(1,2,3) cook_denied [OF assms(4)] by (simp add: update_status_def)

lemma update_status_other_denied:
  assumes "select_order X d = order # others"
    and "status \<in> set valid_statuses"
    and "user_type u \<noteq> Cook" and "user_type u \<noteq> Admin"
  shows "update_status env u X status d = (Inl (AppError ''Insufficient permissions'' 403), d, [])"
  using assms by (simp add: update_status_def)

lemma update_status_success_caller:
  assumes "select_order X d = order # others"
    and "status_code (fst (update_status env u X status d)) = 200"
  shows "user_type u = Admin \<or>
         (user_type u = Cook \<and>
          (\<exists>r \<in> set (restaurants d). r_cook_id r = user_id u \<and> r_id r = o_restaurant_id order))"
proof (cases "user_type u")
  case Customer
  with assms show ?thesis
    by (auto simp: update_status_def status_code_def errorHandler_def split: if_splits)
next
  case Cook
  have "\<not> (case cook_restaurants u d of [] \<Rightarrow> True | r # _ \<Rightarrow> o_restaurant_id order \<noteq> r_id r)"
  proof
    assume "case cook_restaurants u d of [] \<Rightarrow> True | r # _ \<Rightarrow> o_restaurant_id order \<noteq> r_id r"
    with assms Cook show False
      by (auto simp: update_status_def status_code_def errorHandler_def split: if_splits)
  qed
  from cook_allowed [OF this] Cook show ?thesis by simp
next
  case Admin
  then show ?thesis by simp
qed

lemma ex_select_order: "select_order 41 ex_db_delivered = ex_order # []"
  by (simp add: select_order_def ex_db_delivered_def ex_order_def)

text \<open>
  Claim C4. Let order \<open>X\<close> exist. A customer who did not place it is refused by the detail
  route with status 403. A cook none of whose restaurants is the order's restaurant is
  refused with 403 by the detail route and, for a valid target status, by the status
  route. A status change that answers 200 was requested by an administrator or by a cook
  operating the order's restaurant; every other caller with a valid target status, the
  customer who placed the order included, gets a 403 error and the database stays as it was.
\<close>

theorem authorization_boundary:
  assumes "select_order X d = order # others"
  shows "(user_type u = Customer \<and> o_customer_id order \<noteq> user_id u \<longrightarrow>
            get_order u X d = Inl (AppError ''Unauthorized to view this order'' 403)) \<and>
         (user_type u = Cook \<and>
          (\<forall>r \<in> set (restaurants d). r_cook_id r = user_id u \<longrightarrow> r_id r \<noteq> o_restaurant_id order) \<longrightarrow>
            get_order u X d = Inl (AppError ''Unauthorized to view this order'' 403) \<and>
            (status \<in> set valid_statuses \<longrightarrow>
               update_status env u X status d =
                 (Inl (AppError ''Unauthorized to update this order'' 403), d, []))) \<and>
         (status_code (fst (update_status env u X status d)) = 200 \<longrightarrow>
            user_type u = Admin \<or>
            (user_type u = Cook \<and>
             (\<exists>r \<in> set (restaurants d). r_cook_id r = user_id u \<and> r_id r = o_restaurant_id order))) \<and>
         (status \<in> set valid_statuses \<and> user_type u \<noteq> Admin \<and>
          \<not> (user_type u = Cook \<and>
             (\<exists>r \<in> set (restaurants d). r_cook_id r = user_id u \<and> r_id r = o_restaurant_id order)) \<longrightarrow>
            (\<exists>msg. update_status env u X status d = (Inl (AppError msg 403), d, []) \<and>
                   status_code (fst (update_status env u X status d)) = 403))"
proof (intro conjI impI)
  assume "user_type u = Customer \<and> o_customer_id order \<noteq> user_id u"
  then show "get_order u X d = Inl (AppError ''Unauthorized to view this order'' 403)"
    using get_order_customer_denied [OF assms] by simp
next
  assume a: "user_type u = Cook \<and>
    (\<forall>r \<in> set (restaurants d). r_cook_id r = user_id u \<longrightarrow> r_id r \<noteq> o_restaurant_id order)"
  then show "get_order u X d = Inl (AppError ''Unauthorized to view this order'' 403)"
    using get_order_cook_denied [OF assms] by simp
  assume "status \<in> set valid_statuses"
  with a show "update_status env u X status d =
                 (Inl (AppError ''Unauthorized to update this order'' 403), d, [])"
    using update_status_cook_denied [OF assms] by simp
next
  assume "status_code (fst (update_status env u X status d)) = 200"
  then show "user_type u = Admin \<or>
            (user_type u = Cook \<and>
             (\<exists>r \<in> set (restaurants d). r_cook_id r = user_id u \<and> r_id r = o_restaurant_id order))"
    by (rule update_status_success_caller [OF assms])
next
  assume b: "status \<in> set valid_statuses \<and> user_type u \<noteq> Admin \<and>
          \<not> (user_type u = Cook \<and>
             (\<exists>r \<in> set (restaurants d). r_cook_id r = user_id u \<and> r_id r = o_restaurant_id order))"
  show "\<exists>msg. update_status env u X status d = (Inl (AppError msg 403), d, []) \<and>
                   status_code (fst (update_status env u X status d)) = 403"
  proof (cases "user_type u = Cook")
    case True
    with b have "\<forall>r \<in> set (restaurants d). r_cook_id r = user_id u \<longrightarrow> r_id r \<noteq> o_restaurant_id order"
      by blast
    with b True update_status_cook_denied [OF assms, of status u env] show ?thesis
      by (simp add: status_code_def errorHandler_def)
  next
    case False
    with b update_status_other_denied [OF assms, of status u env] show ?thesis
      by (simp add: status_code_def errorHandler_def)
  qed
qed

theorem authorization_boundary_witness:
  "get_order bob 41 ex_db_delivered = Inl (AppError ''Unauthorized to view this order'' 403) \<and>
   get_order cook2 41 ex_db_delivered = Inl (AppError ''Unauthorized to view this order'' 403) \<and>
   update_status ex_env cook2 41 ''confirmed'' ex_db_delivered =
     (Inl (AppError ''Unauthorized to update this order'' 403), ex_db_delivered, []) \<and>
   (\<exists>msg. update_status ex_env alice 41 ''confirmed'' ex_db_delivered =
            (Inl (AppError msg 403), ex_db_delivered, []))"
proof -
  note t = authorization_boundary [OF ex_select_order]
  have "get_order bob 41 ex_db_delivered = Inl (AppError ''Unauthorized to view this order'' 403)"
    using t [of bob] by (simp add: bob_def ex_order_def)
  moreover have "get_order cook2 41 ex_db_delivered =
      Inl (AppError ''Unauthorized to view this order'' 403) \<and>
    update_status ex_env cook2 41 ''confirmed'' ex_db_delivered =
     (Inl (AppError ''Unauthorized to update this order'' 403), ex_db_delivered, [])"
    using t [of cook2 "''confirmed''" ex_env]
    by (simp add: cook2_def ex_order_def ex_db_delivered_def ex_db_def valid_statuses_def)
  moreover have "\<exists>msg. update_status ex_env alice 41 ''confirmed'' ex_db_delivered =
            (Inl (AppError msg 403), ex_db_delivered, [])"
    using t [of alice "''confirmed''" ex_env]
    by (simp add: alice_def valid_statuses_def)
  ultimately show ?thesis by blast
qed

section \<open>Status changes\<close>

lemma filter_map_same_id:
  assumes "\<And>row. o_id (h row) = o_id row"
  shows "filter (\<lambda>row. o_id row = X) (map (\<lambda>row. if o_id row = X then h row else row) xs) =
         map h (filter (\<lambda>row. o_id row = X) xs)"
  by (induction xs) (simp_all add: assms)

lemma filter_map_other_id:
  assumes "\<And>row. o_id (h row) = o_id row"
  shows "filter (\<lambda>row. o_id row \<noteq> X) (map (\<lambda>row. if o_id row = X then h row else row) xs) =
         filter (\<lambda>row. o_id row \<noteq> X) xs"
  by (induction xs) (simp_all add: assms)

lemma set_status_orders:
  "orders (set_status X status t d) =
     map (\<lambda>row. if o_id row = X
               then row\<lparr>o_status := status,
                        o_delivered_at := (if status = ''delivered'' then Some t
                                           else o_delivered_at row)\<rparr>
               else row) (orders d)"
  by (simp add: set_status_def)

lemma select_order_set_status:
  "select_order X (set_status X status t d) =
     map (\<lambda>row. row\<lparr>o_status := status,
                      o_delivered_at := (if status = ''delivered'' then Some t
                                         else o_delivered_at row)\<rparr>)
         (select_order X d)"
  unfolding select_order_def set_status_orders by (rule filter_map_same_id) simp

lemma other_orders_set_status:
  "filter (\<lambda>row. o_id row \<noteq> X) (orders (set_status X status t d)) =
     filter (\<lambda>row. o_id row \<noteq> X) (orders d)"
  unfolding set_status_orders by (rule filter_map_other_id) simp

lemma update_status_authorised:
  assumes "status \<in> set valid_statuses"
    and "select_order X d = order # others"
    and "user_type u = Admin \<or>
         (user_type u = Cook \<and>
          (\<exists>r rs. cook_restaurants u d = r # rs \<and> r_id r = o_restaurant_id order))"
  shows "update_status env u X status d =
           (if emit_throws env then (Inl (OtherError ''emit''), set_status X status (now env) d, [])
            else (Inr (200, Updated ''Order status updated successfully''),
                  set_status X status (now env) d,
                  [OrderStatusChanged (''user_'' @ toString (o_customer_id order)) X status
                     (o_order_number order)]))"
  using assms by (auto simp: update_status_def Let_def)

text \<open>
  Claim C5. For an administrator, or a cook whose restaurant is the order's, every target
  status of the enumerated set is accepted whatever the current status of the order: the
  route answers 200 (when the notification call does not raise), every row of that order
  gets the new status, \<open>delivered_at\<close> is set to the current time when the target is
  \<^verbatim>\<open>delivered\<close> and is left as it was otherwise, and all other orders are unchanged.
  The witness cancels an order that is already delivered.
\<close>

theorem status_transition:
  assumes "status \<in> set valid_statuses"
    and "select_order X d = order # others"
    and "user_type u = Admin \<or>
         (user_type u = Cook \<and>
          (\<exists>r rs. cook_restaurants u d = r # rs \<and> r_id r = o_restaurant_id order))"
  shows "(\<not> emit_throws env \<longrightarrow>
            fst (update_status env u X status d) =
              Inr (200, Updated ''Order status updated successfully'')) \<and>
         select_order X (fst (snd (update_status env u X status d))) =
           map (\<lambda>row. row\<lparr>o_status := status,
                            o_delivered_at := (if status = ''delivered'' then Some (now env)
                                               else o_delivered_at row)\<rparr>)
               (select_order X d) \<and>
         filter (\<lambda>row. o_id row \<noteq> X) (orders (fst (snd (update_status env u X status d)))) =
           filter (\<lambda>row. o_id row \<noteq> X) (orders d)"
  unfolding update_status_authorised [OF assms]
  by (simp add: select_order_set_status other_orders_set_status)

theorem status_transition_witness:
  "fst (update_status ex_env root 41 ''cancelled'' ex_db_delivered) =
     Inr (200, Updated ''Order status updated successfully'') \<and>
   select_order 41 (fst (snd (update_status ex_env root 41 ''cancelled'' ex_db_delivered))) =
     [ex_order\<lparr>o_status := ''cancelled''\<rparr>] \<and>
   select_order 41 (fst (snd (update_status ex_env root 41 ''delivered''
       (ex_db_delivered\<lparr>orders := [ex_order\<lparr>o_status := ''pending'', o_delivered_at := None\<rparr>]\<rparr>)))) =
     [ex_order\<lparr>o_status := ''delivered'', o_delivered_at := Some 1700000123456\<rparr>]"
proof -
  have v: "''cancelled'' \<in> set valid_statuses" "''delivered'' \<in> set valid_statuses"
    by (simp_all add: valid_statuses_def)
  have a: "user_type root = Admin \<or>
           (user_type root = Cook \<and> (\<exists>r rs. cook_restaurants root dd = r # rs \<and> r_id r = rr))"
    for dd rr
    by (simp add: root_def)
  have s: "select_order 41 (ex_db_delivered\<lparr>orders := [ex_order\<lparr>o_status := ''pending'', o_delivered_at := None\<rparr>]\<rparr>)
             = ex_order\<lparr>o_status := ''pending'', o_delivered_at := None\<rparr> # []"
    by (simp add: select_order_def ex_order_def)
  from status_transition [OF v(1) ex_select_order a, of ex_env]
       status_transition [OF v(2) s a, of ex_env]
  show ?thesis
    by (simp add: ex_select_order s ex_env_def)
qed

section \<open>Atomicity of order creation\<close>




section \<open>Cart cleanup\<close>



section \<open>Notification of a new order\<close>

text \<open>
  Claim C7, as the code has it. A \<^verbatim>\<open>new_order\<close> event is sent only for an order that is
  committed, and a raising dispatch call leaves the committed database exactly as a
  dispatch that returns does: it rolls nothing back. But the exception is rethrown by the
  \<^verbatim>\<open>catch\<close> block: where the route would answer 201, a raising dispatch makes it answer 500.
\<close>

theorem dispatch_after_commit:
  "(\<forall>room oid num name amt n.
      NewOrder room oid num name amt n \<in> set (snd (snd (create_order env u req d))) \<longrightarrow>
      (\<exists>row \<in> set (orders (fst (snd (create_order env u req d)))).
          o_id row = oid \<and> o_order_number row = num)) \<and>
   fst (snd (create_order (env\<lparr>emit_throws := True\<rparr>) u req d)) =
     fst (snd (create_order (env\<lparr>emit_throws := False\<rparr>) u req d)) \<and>
   (status_code (fst (create_order (env\<lparr>emit_throws := False\<rparr>) u req d)) = 201 \<longrightarrow>
      status_code (fst (create_order (env\<lparr>emit_throws := True\<rparr>) u req d)) = 500 \<and>
      snd (snd (create_order (env\<lparr>emit_throws := True\<rparr>) u req d)) = [])"
proof (intro conjI allI impI)
  fix room oid num name amt n
  assume "NewOrder room oid num name amt n \<in> set (snd (snd (create_order env u req d)))"
  then show "\<exists>row \<in> set (orders (fst (snd (create_order env u req d)))).
                o_id row = oid \<and> o_order_number row = num"
    by (rule dispatched_is_committed)
next
  show "fst (snd (create_order (env\<lparr>emit_throws := True\<rparr>) u req d)) =
     fst (snd (create_order (env\<lparr>emit_throws := False\<rparr>) u req d))"
    by (simp add: create_order_emit_state)
next
  assume a: "status_code (fst (create_order (env\<lparr>emit_throws := False\<rparr>) u req d)) = 201"
  show "status_code (fst (create_order (env\<lparr>emit_throws := True\<rparr>) u req d)) = 500"
    by (simp add: created_with_raising_emit(1) [OF a] status_code_def errorHandler_def)
  show "snd (snd (create_order (env\<lparr>emit_throws := True\<rparr>) u req d)) = []"
    by (rule created_with_raising_emit(2) [OF a])
qed

theorem dispatch_after_commit_witness:
  "status_code (fst (create_order (ex_env\<lparr>emit_throws := True\<rparr>) alice ex_req ex_db)) = 500 \<and>
   snd (snd (create_order (ex_env\<lparr>emit_throws := True\<rparr>) alice ex_req ex_db)) = [] \<and>
   fst (snd (create_order (ex_env\<lparr>emit_throws := True\<rparr>) alice ex_req ex_db)) = ex_db_after \<and>
   ex_new_order \<in> set (orders ex_db_after)"
proof -
  have "status_code (fst (create_order (ex_env\<lparr>emit_throws := False\<rparr>) alice ex_req ex_db)) = 201"
    by (simp add: ex_env_emit ex_created status_code_def)
  with dispatch_after_commit [of ex_env alice ex_req ex_db]
  show ?thesis
    by (simp add: ex_env_emit ex_created ex_db_after_def)
qed

text \<open>
  The claim as stated fails: for the example order with a raising dispatch call the caller
  gets status 500 although the order is persisted.
\<close>

theorem dispatch_failure_surfaces:
  "fst (create_order (ex_env\<lparr>emit_throws := True\<rparr>) alice ex_req ex_db) = Inl (OtherError ''emit'') \<and>
   status_code (fst (create_order (ex_env\<lparr>emit_throws := True\<rparr>) alice ex_req ex_db)) = 500 \<and>
   orders (fst (snd (create_order (ex_env\<lparr>emit_throws := True\<rparr>) alice ex_req ex_db))) = [ex_new_order]"
proof -
  have a: "status_code (fst (create_order (ex_env\<lparr>emit_throws := False\<rparr>) alice ex_req ex_db)) = 201"
    by (simp add: ex_env_emit ex_created status_code_def)
  have "fst (snd (create_order (ex_env\<lparr>emit_throws := True\<rparr>) alice ex_req ex_db)) = ex_db_after"
    by (simp add: create_order_emit_state ex_created)
  then show ?thesis
    by (simp add: created_with_raising_emit(1) [OF a] status_code_def errorHandler_def
          ex_db_after_def)
qed

section \<open>Order number collisions\<close>

text \<open>
  Claim C6, as the code has it. There is no retry: whenever a request that would be
  answered 201 with some draw \<open>r'\<close> of the random part is made with a draw whose order
  number already exists, the \<^verbatim>\<open>INSERT\<close> fails with \<^verbatim>\<open>ER_DUP_ENTRY\<close>, the transaction
  is rolled back, nothing is written or sent, and the error handler answers 400
  \<^verbatim>\<open>Duplicate field value entered\<close>.
\<close>

theorem order_number_collision:
  assumes "status_code (fst (create_order (env\<lparr>random_floor := r'\<rparr>) u req d)) = 201"
    and "\<exists>row \<in> set (orders d). o_order_number row = generateOrderNumber (now env) (random_floor env)"
  shows "create_order env u req d = (Inl (DbError ''ER_DUP_ENTRY''), d, []) \<and>
         errorHandler (DbError ''ER_DUP_ENTRY'') = (400, ''Duplicate field value entered'')"
proof -
  from assms(1) obtain restaurant rs totalAmount orderItems w1 orderId where
    re: "filter (\<lambda>r. r_id r = restaurant_id req \<and> r_is_active r) (restaurants d) = restaurant # rs"
    and va: "validate_items d (restaurant_id req) (items req) 0 [] = Inr (totalAmount, orderItems)"
    and io: "insert_order (env\<lparr>random_floor := r'\<rparr>) u req restaurant totalAmount d = Inr (w1, orderId)"
    by (rule created_is_committed)
  have cv: "user_type u = Customer" "valid_order_request req"
    using assms(1) by (auto simp: create_order_def status_code_def split: if_splits)
  from insert_order_amounts [OF io] obtain a b c e where
    "to_decimal totalAmount = Some a" "to_decimal (deliveryFee restaurant) = Some b"
    "to_decimal (taxAmount totalAmount) = Some c"
    "to_decimal (finalAmount totalAmount (deliveryFee restaurant)) = Some e"
    by blast
  from insert_order_duplicate [OF this assms(2)]
  have "insert_order env u req restaurant totalAmount d = Inl (DbError ''ER_DUP_ENTRY'')" .
  then have "create_order env u req d = (Inl (DbError ''ER_DUP_ENTRY''), d, [])"
    by (simp add: create_order_unfold [OF cv] re va)
  then show ?thesis by (simp add: errorHandler_def)
qed

theorem order_number_collision_witness:
  "create_order ex_env alice ex_req ex_db_delivered =
     (Inl (DbError ''ER_DUP_ENTRY''), ex_db_delivered, []) \<and>
   errorHandler (DbError ''ER_DUP_ENTRY'') = (400, ''Duplicate field value entered'')"
proof -
  have "\<exists>row \<in> set (orders ex_db_delivered).
          o_order_number row = generateOrderNumber (now ex_env) (random_floor ex_env)"
    by (simp add: ex_order_number ex_db_delivered_def ex_order_def)
  from order_number_collision [OF ex_fresh_draw this] show ?thesis .
qed

text \<open>
  The claim as stated fails: with order number \<^verbatim>\<open>ORD-123456007\<close> taken, the example request
  is answered 400 and nothing is written, although the same request with the draw 8
  instead of 7 is answered 201.
\<close>

theorem no_retry_on_collision:
  "create_order ex_env alice ex_req ex_db_delivered =
     (Inl (DbError ''ER_DUP_ENTRY''), ex_db_delivered, []) \<and>
   status_code (fst (create_order ex_env alice ex_req ex_db_delivered)) = 400 \<and>
   status_code (fst (create_order (ex_env\<lparr>random_floor := 8\<rparr>) alice ex_req ex_db_delivered)) = 201"
proof -
  have re: "filter (\<lambda>r. r_id r = restaurant_id ex_req \<and> r_is_active r) (restaurants ex_db_delivered)
              = [ex_restaurant]"
    by (simp add: ex_db_delivered_def ex_db_def ex_req_def ex_restaurant_def)
  have va: "validate_items ex_db_delivered (restaurant_id ex_req) (items ex_req) 0 [] = Inr (25, ex_lines)"
    by (simp add: ex_db_delivered_def ex_db_def ex_req_def select_food_item_def itemTotal_def
          order_line_def or_null_def ex_numbers ex_lines_def)
  have io: "insert_order ex_env alice ex_req ex_restaurant 25 ex_db_delivered =
              Inl (DbError ''ER_DUP_ENTRY'')"
    by (simp add: insert_order_def deliveryFee_def taxAmount_def finalAmount_def ex_numbers
          ex_order_number ex_restaurant_def ex_db_delivered_def ex_order_def)
  have a: "create_order ex_env alice ex_req ex_db_delivered =
     (Inl (DbError ''ER_DUP_ENTRY''), ex_db_delivered, [])"
    by (simp add: create_order_unfold [OF ex_valid] re va io)
  have b: "status_code (fst (create_order ex_env alice ex_req ex_db_delivered)) = 400"
    by (simp add: a status_code_def errorHandler_def)
  show ?thesis
    by (intro conjI) (rule a, rule b, rule ex_fresh_draw)
qed

section \<open>Order lines\<close>







section \<open>Pricing of a created order\<close>



section \<open>The arithmetic of the pricing\<close>

text \<open>
  Claim C3, as stated, fails: the amounts are computed in binary floating point. For three
  portions at 0.10 and no delivery fee the route answers 201; the subtotal it accumulates is
  not the decimal 0.30 but the binary64 number next above it, and the amount it puts on the
  \<^verbatim>\<open>new_order\<close> event is not the decimal 0.315 (0.30 + 0 + 5% of 0.30).
\<close>

theorem pricing_not_fixed_point:
  "status_code (fst (create_order ex_env bob ex_req_c ex_db)) = 201 \<and>
   float_subtotal ex_db ex_req_c = 1351079888211149 / 4503599627370496 \<and>
   decimal_value (exact_subtotal ex_db ex_req_c) = 3 / 10 \<and>
   float_subtotal ex_db ex_req_c \<noteq> decimal_value (exact_subtotal ex_db ex_req_c) \<and>
   event_amounts (snd (snd (create_order ex_env bob ex_req_c ex_db))) =
     [2837267765243413 / 9007199254740992] \<and>
   decimal_value (exact_subtotal ex_db ex_req_c) + decimal_value (restaurant_fee ex_db ex_req_c)
     + decimal_value (exact_subtotal ex_db ex_req_c) * 5 / 100 = 63 / 200 \<and>
   event_amounts (snd (snd (create_order ex_env bob ex_req_c ex_db))) \<noteq> [63 / 200]"
proof -
  have ev: "event_amounts (snd (snd (create_order ex_env bob ex_req_c ex_db))) =
              [2837267765243413 / 9007199254740992]"
    using created_event [OF ex_c_created] by (simp only: ex_c_final)
  have a: "decimal_value (exact_subtotal ex_db ex_req_c) = 3 / 10"
    by (simp add: ex_c_exact decimal_value_def)
  have b: "float_subtotal ex_db ex_req_c \<noteq> decimal_value (exact_subtotal ex_db ex_req_c)"
    unfolding a ex_c_subtotal by simp
  have c: "decimal_value (exact_subtotal ex_db ex_req_c) + decimal_value (restaurant_fee ex_db ex_req_c)
     + decimal_value (exact_subtotal ex_db ex_req_c) * 5 / 100 = 63 / 200"
    by (simp add: ex_c_exact decimal_value_def)
  have e: "event_amounts (snd (snd (create_order ex_env bob ex_req_c ex_db))) \<noteq> [63 / 200]"
    unfolding ev by simp
  show ?thesis
    by (intro conjI) (rule ex_c_created, rule ex_c_subtotal, rule a, rule b, rule ev, rule c, rule e)
qed

text \<open>
  Claim C3, as the code has it. The pricing is computed in IEEE-754 binary64 arithmetic
  (\<^verbatim>\<open>parseFloat\<close>, \<^verbatim>\<open>*\<close>, \<^verbatim>\<open>+\<close>), not in fixed-point decimal. It is deterministic: the four
  amounts stored with a created order are the binary64 results \<^const>\<open>float_amounts\<close> rounded to
  cents by the \<^verbatim>\<open>DECIMAL(10,2)\<close> columns, and the amount on the \<^verbatim>\<open>new_order\<close> event is the
  unrounded binary64 result \<^const>\<open>float_final\<close>; both depend on the request and the database
  alone, not on the caller, the clock or the random draw, so running the computation again
  on the same prices, quantities and fee gives the same values. They carry rounding error:
  each line total is within a relative error of \<open>3 / 2^53\<close> (plus \<open>1 / 2^60\<close>) of unit price
  times quantity.
\<close>

theorem pricing_binary64_deterministic:
  assumes "status_code (fst (create_order env u req d)) = 201"
  shows "map to_decimal (float_amounts d req) =
           map Some (order_amounts (last (orders (fst (snd (create_order env u req d)))))) \<and>
         event_amounts (snd (snd (create_order env u req d))) = [float_final d req] \<and>
         (\<forall>item \<in> set (items req).
            \<bar>itemTotal (menu_row d (restaurant_id req) item) item
               - decimal_value (f_price (menu_row d (restaurant_id req) item)) * of_nat (quantity item)\<bar>
              \<le> \<bar>decimal_value (f_price (menu_row d (restaurant_id req) item))
                     * of_nat (quantity item)\<bar> * 3 / 2 ^ 53 + 1 / 2 ^ 60)"
proof -
  from assms obtain restaurant rs totalAmount orderItems w1 orderId w2 where
      sel: "filter (\<lambda>r. r_id r = restaurant_id req \<and> r_is_active r) (restaurants d) = restaurant # rs"
      and va: "validate_items d (restaurant_id req) (items req) 0 [] = Inr (totalAmount, orderItems)"
      and io: "insert_order env u req restaurant totalAmount d = Inr (w1, orderId)"
      and ii: "insert_items orderId orderItems w1 = (None, w2)"
      and st: "fst (snd (create_order env u req d)) = clear_cart (user_id u) (restaurant_id req) w2"
    by (rule created_is_committed)
  note row = committed_order_row [OF io ii, of "user_id u" "restaurant_id req", folded st]
  from va have total: "totalAmount = float_subtotal d req"
    and lines: "orderItems = map (\<lambda>item. order_line (menu_row d (restaurant_id req) item) item) (items req)"
    unfolding validate_items_Inr by (simp_all add: float_subtotal_def)
  have re: "restaurant = selected_restaurant d req" by (simp add: selected_restaurant_def sel)
  have stored: "map to_decimal (float_amounts d req) =
           map Some (order_amounts (last (orders (fst (snd (create_order env u req d))))))"
    using row(3,4,5,6) unfolding total re
    by (simp add: float_amounts_def order_amounts_def float_final_def)
  from insert_items_success [OF ii]
  have "\<forall>l \<in> set orderItems. l_quantity l \<le> int_max" by blast
  then have q: "\<forall>item \<in> set (items req). quantity item \<le> int_max"
    unfolding lines by (simp add: order_line_def)
  have err: "\<forall>item \<in> set (items req).
            \<bar>itemTotal (menu_row d (restaurant_id req) item) item
               - decimal_value (f_price (menu_row d (restaurant_id req) item)) * of_nat (quantity item)\<bar>
              \<le> \<bar>decimal_value (f_price (menu_row d (restaurant_id req) item))
                     * of_nat (quantity item)\<bar> * 3 / 2 ^ 53 + 1 / 2 ^ 60"
  proof
    fix item assume "item \<in> set (items req)"
    with q have "quantity item \<le> int_max" by blast
    then show "\<bar>itemTotal (menu_row d (restaurant_id req) item) item
               - decimal_value (f_price (menu_row d (restaurant_id req) item)) * of_nat (quantity item)\<bar>
              \<le> \<bar>decimal_value (f_price (menu_row d (restaurant_id req) item))
                     * of_nat (quantity item)\<bar> * 3 / 2 ^ 53 + 1 / 2 ^ 60"
      by (rule itemTotal_error)
  qed
  show ?thesis
    by (intro conjI) (rule stored, rule created_event [OF assms], rule err)
qed

theorem pricing_binary64_deterministic_witness:
  "status_code (fst (create_order ex_env alice ex_req ex_db)) = 201 \<and>
   map to_decimal (float_amounts ex_db ex_req) = [Some 2500, Some 250, Some 125, Some 2875] \<and>
   event_amounts [NewOrder ''restaurant_1'' 42 ''ORD-123456007'' ''Alice A'' (115 / 4) 2] =
     [float_final ex_db ex_req] \<and>
   \<bar>itemTotal (menu_row ex_db (restaurant_id ex_req) (hd (items ex_req))) (hd (items ex_req))
      - decimal_value (f_price (menu_row ex_db (restaurant_id ex_req) (hd (items ex_req))))
        * of_nat (quantity (hd (items ex_req)))\<bar>
     \<le> \<bar>decimal_value (f_price (menu_row ex_db (restaurant_id ex_req) (hd (items ex_req))))
            * of_nat (quantity (hd (items ex_req)))\<bar> * 3 / 2 ^ 53 + 1 / 2 ^ 60"
proof -
  have c: "status_code (fst (create_order ex_env alice ex_req ex_db)) = 201"
    by (simp add: ex_created status_code_def)
  have st: "fst (snd (create_order ex_env alice ex_req ex_db)) = ex_db_after"
    "snd (snd (create_order ex_env alice ex_req ex_db)) =
       [NewOrder ''restaurant_1'' 42 ''ORD-123456007'' ''Alice A'' (115 / 4) 2]"
    by (simp_all add: ex_created)
  have am: "map Some (order_amounts (last (orders ex_db_after))) =
              [Some 2500, Some 250, Some 125, Some 2875]"
    by (simp add: ex_db_after_def ex_new_order_def order_amounts_def)
  have first: "hd (items ex_req) \<in> set (items ex_req)" by (simp add: ex_req_def)
  note t = pricing_binary64_deterministic [OF c, unfolded st am]
  show ?thesis
    by (intro conjI) (rule c, rule t [THEN conjunct1], rule t [THEN conjunct2, THEN conjunct1],
        rule t [THEN conjunct2, THEN conjunct2, THEN bspec, OF first])
qed

end
